theory Spec2Isabelle
  imports Complex_Main
begin

section \<open>The repository sync data source of SubjectiveByBitP2PDataSource.py\<close>

text \<open>
  The class \<open>SubjectiveByBitP2PDataSource\<close> lists repository names and clones each one
  with \<open>git clone\<close> into a target directory, keeping four progress counters. The
  model passes the object and the outside world explicitly. Python \<open>str\<close> and
  \<open>bytes\<close> values are both lists of bytes here: a \<open>str\<close> is held as its UTF-8
  encoding, so decoding \<open>bytes\<close> keeps the bytes and only checks them.
  Python's floats (the clock readings and the accumulated time) are real numbers here;
  no statement below depends on their arithmetic.
\<close>

subsection \<open>Exceptions, the file system, the recorded effects\<close>

type_synonym path = string

datatype exn =
    FileNotFoundError
  | NotADirectoryError
  | PermissionError
  | OSError string
  | UnicodeDecodeError
  | AttributeError
  | OtherException string

datatype outcome = Returned | Raised exn

text \<open>
  What a path names: nothing (the map gives \<open>None\<close>), a regular file, a directory with
  its entries, or a directory that cannot be read. The map is the view that
  \<open>os.path.exists\<close> and \<open>os.listdir\<close> have of the file system.
\<close>

datatype node = File | Dir "string list" | NoAccess

type_synonym filesystem = "path \<Rightarrow> node option"

definition os_path_exists :: "filesystem \<Rightarrow> path \<Rightarrow> bool" where
  "os_path_exists fs p = (fs p \<noteq> None)"

definition os_listdir :: "filesystem \<Rightarrow> path \<Rightarrow> exn + string list" where
  "os_listdir fs p =
     (case fs p of
        None \<Rightarrow> Inl FileNotFoundError
      | Some File \<Rightarrow> Inl NotADirectoryError
      | Some NoAccess \<Rightarrow> Inl PermissionError
      | Some (Dir entries) \<Rightarrow> Inr entries)"

text \<open>\<open>os.path.join\<close> of two components, as \<open>posixpath.join\<close> computes it.\<close>

definition os_path_join :: "path \<Rightarrow> string \<Rightarrow> path" where
  "os_path_join a b =
     (if b \<noteq> [] \<and> hd b = CHR ''/'' then b
      else if a = [] \<or> last a = CHR ''/'' then a @ b
      else a @ ''/'' @ b)"

datatype level = Info | Error

datatype event =
    Log level string
  | Makedirs path
  | Run "string list"
  | Callback string int int real

text \<open>
  The result of \<open>subprocess.run(cmd, check=True, stdout=PIPE, stderr=PIPE)\<close>: the
  process exits with status 0, or with another status (\<open>CalledProcessError\<close>, carrying
  the captured standard error as bytes), or cannot be started at all.
\<close>

datatype run_result =
    CompletedProcess
  | CalledProcessError "char list"
  | RunRaised exn

record world =
  fs :: filesystem
  now :: nat
  events :: "event list"

text \<open>
  The collaborators outside the repository: the clock (its reading at each read),
  \<open>os.makedirs\<close> and \<open>subprocess.run\<close>. The last one also gets the number of clock
  reads so far, so that the same command may end differently at different times.
\<close>

record env =
  clock :: "nat \<Rightarrow> real"
  os_makedirs :: "path \<Rightarrow> filesystem \<Rightarrow> exn option \<times> filesystem"
  subprocess_run :: "nat \<Rightarrow> string list \<Rightarrow> filesystem \<Rightarrow> run_result \<times> filesystem"

definition time_time :: "env \<Rightarrow> world \<Rightarrow> real \<times> world" where
  "time_time e w = (clock e (now w), w\<lparr>now := Suc (now w)\<rparr>)"

definition emit :: "event \<Rightarrow> world \<Rightarrow> world" where
  "emit ev w = w\<lparr>events := events w @ [ev]\<rparr>"

definition BBLogger_log :: "level \<Rightarrow> string \<Rightarrow> world \<Rightarrow> world" where
  "BBLogger_log lv msg w = emit (Log lv msg) w"

subsection \<open>Strings\<close>

definition apostrophe :: string where
  "apostrophe = [CHR 0x27]"

definition digit_char :: "nat \<Rightarrow> char" where
  "digit_char d = char_of (48 + d)"

function str_nat :: "nat \<Rightarrow> string" where
  "str_nat n = (if n < 10 then [digit_char n] else str_nat (n div 10) @ [digit_char (n mod 10)])"
  by pat_completeness auto
termination
  by (relation "measure (\<lambda>n. n)") auto

definition str_int :: "int \<Rightarrow> string" where
  "str_int i = (if i < 0 then ''-'' @ str_nat (nat (- i)) else str_nat (nat i))"

text \<open>
  \<open>bytes.decode()\<close> with its defaults (UTF-8, strict): the well-formed byte sequences
  of the Unicode standard, with no overlong form, no surrogate and nothing above
  U+10FFFF; anything else raises \<open>UnicodeDecodeError\<close>.
\<close>

definition cont_byte :: "nat \<Rightarrow> bool" where
  "cont_byte b = (128 \<le> b \<and> b \<le> 191)"

function utf8_valid :: "nat list \<Rightarrow> bool" where
  "utf8_valid [] = True"
| "utf8_valid (b0 # bs) =
     (if b0 < 128 then utf8_valid bs
      else if 194 \<le> b0 \<and> b0 \<le> 223 then
        (case bs of
           b1 # r \<Rightarrow> cont_byte b1 \<and> utf8_valid r
         | _ \<Rightarrow> False)
      else if 224 \<le> b0 \<and> b0 \<le> 239 then
        (case bs of
           b1 # b2 # r \<Rightarrow>
             (if b0 = 224 then 160 \<le> b1 \<and> b1 \<le> 191
              else if b0 = 237 then 128 \<le> b1 \<and> b1 \<le> 159
              else cont_byte b1)
             \<and> cont_byte b2 \<and> utf8_valid r
         | _ \<Rightarrow> False)
      else if 240 \<le> b0 \<and> b0 \<le> 244 then
        (case bs of
           b1 # b2 # b3 # r \<Rightarrow>
             (if b0 = 240 then 144 \<le> b1 \<and> b1 \<le> 191
              else if b0 = 244 then 128 \<le> b1 \<and> b1 \<le> 143
              else cont_byte b1)
             \<and> cont_byte b2 \<and> cont_byte b3 \<and> utf8_valid r
         | _ \<Rightarrow> False)
      else False)"
  by pat_completeness auto
termination
  by (relation "measure length") auto

definition decode :: "char list \<Rightarrow> exn + string" where
  "decode bs = (if utf8_valid (map of_char bs) then Inr bs else Inl UnicodeDecodeError)"

subsection \<open>The object\<close>

type_synonym progress_callback_t = "string \<Rightarrow> int \<Rightarrow> int \<Rightarrow> real \<Rightarrow> exn option"

record datasource =
  name :: string
  params :: "string \<rightharpoonup> string"
  progress_callback :: "progress_callback_t option"
  total_items :: int
  processed_items :: int
  total_processing_time :: real
  fetch_completed :: bool

text \<open>\<open>self.params.get(key, '')\<close>.\<close>

definition params_get :: "(string \<rightharpoonup> string) \<Rightarrow> string \<Rightarrow> string" where
  "params_get ps k = (case ps k of None \<Rightarrow> [] | Some v \<Rightarrow> v)"

text \<open>
  \<open>__init__\<close>: the four counters are set here and nowhere else outside \<open>fetch\<close>. The
  base class keeps the name and the parameters; no callback is registered yet.
\<close>

definition init :: "string \<Rightarrow> (string \<rightharpoonup> string) \<Rightarrow> datasource" where
  "init nm ps =
     \<lparr>name = nm, params = ps, progress_callback = None,
      total_items = 0, processed_items = 0,
      total_processing_time = 0, fetch_completed = False\<rparr>"

text \<open>
  Modelled from the spec: the accessors \<open>get_name\<close>, \<open>total_to_process\<close>,
  \<open>total_processed\<close> and \<open>estimated_remaining_time\<close> belong to the base class
  \<open>SubjectiveDataSource\<close> of another package, which is not among the sources. The spec
  gives the callback's arguments as the task name, the total item count, the processed
  item count and an estimate "derived from average per-item time so far multiplied by
  remaining item count". The estimate is computed after the processed count was
  incremented, so the count it divides by is at least 1 in a run that starts from the
  constructor's 0.
\<close>

definition get_name :: "datasource \<Rightarrow> string" where
  "get_name self = name self"

definition total_to_process :: "datasource \<Rightarrow> int" where
  "total_to_process self = total_items self"

definition total_processed :: "datasource \<Rightarrow> int" where
  "total_processed self = processed_items self"

definition estimated_remaining_time :: "datasource \<Rightarrow> real" where
  "estimated_remaining_time self =
     (total_processing_time self / real_of_int (processed_items self))
       * real_of_int (total_items self - processed_items self)"

subsection \<open>fetch\<close>

type_synonym result = "outcome \<times> datasource \<times> world"

definition outcome_of :: "result \<Rightarrow> outcome" where
  "outcome_of r = fst r"

definition self_of :: "result \<Rightarrow> datasource" where
  "self_of r = fst (snd r)"

definition world_of :: "result \<Rightarrow> world" where
  "world_of r = snd (snd r)"

text \<open>The text of the first log line of \<open>fetch\<close> (line 98).\<close>

definition starting_message :: "string \<Rightarrow> path \<Rightarrow> string" where
  "starting_message region target_directory =
     ''Starting AWS CodeCommit fetch for region '' @ apostrophe @ region @ apostrophe
       @ '' into '' @ apostrophe @ target_directory @ apostrophe @ ''.''"

text \<open>\<open>_get_repositories\<close>: the placeholder listing of the source.\<close>

definition get_repositories :: "datasource \<Rightarrow> string list" where
  "get_repositories self = [''Repo1'', ''Repo2'', ''Repo3'']"

text \<open>Lines 100 to 102: the target directory is created when it does not exist.\<close>

definition ensure_directory :: "env \<Rightarrow> path \<Rightarrow> world \<Rightarrow> exn option \<times> world" where
  "ensure_directory e target_directory w =
     (if \<not> os_path_exists (fs w) target_directory then
        (case os_makedirs e target_directory (fs w) of
           (Some x, fs') \<Rightarrow> (Some x, emit (Makedirs target_directory) (w\<lparr>fs := fs'\<rparr>))
         | (None, fs') \<Rightarrow>
             (None, BBLogger_log Info (''Created directory '' @ target_directory)
                      (emit (Makedirs target_directory) (w\<lparr>fs := fs'\<rparr>))))
      else (None, w))"

text \<open>
  Line 114, \<open>os.path.exists(dest_path) and os.listdir(dest_path)\<close>: the second operand
  is evaluated only when the first is true, and it raises for a path that is not a
  readable directory. The value is the truth value of the condition.
\<close>

definition already_cloned :: "filesystem \<Rightarrow> path \<Rightarrow> exn + bool" where
  "already_cloned f dest_path =
     (if os_path_exists f dest_path then
        (case os_listdir f dest_path of
           Inl x \<Rightarrow> Inl x
         | Inr entries \<Rightarrow> Inr (entries \<noteq> []))
      else Inr False)"

text \<open>Lines 117 to 122: the clone, with its \<open>except subprocess.CalledProcessError\<close>.\<close>

definition try_clone :: "env \<Rightarrow> string \<Rightarrow> string \<Rightarrow> path \<Rightarrow> world \<Rightarrow> exn option \<times> world" where
  "try_clone e repo_name clone_url dest_path w =
     (let w1 = BBLogger_log Info
                 (''Cloning repository '' @ repo_name @ '' from '' @ clone_url @ '' ...'') w;
          cmd = [''git'', ''clone'', clone_url, dest_path];
          (r, fs') = subprocess_run e (now w1) cmd (fs w1);
          w2 = emit (Run cmd) (w1\<lparr>fs := fs'\<rparr>)
      in case r of
           CompletedProcess \<Rightarrow> (None, w2)
         | CalledProcessError stderr \<Rightarrow>
             (case decode stderr of
                Inl x \<Rightarrow> (Some x, w2)
              | Inr s \<Rightarrow>
                  (None, BBLogger_log Error (''Error cloning '' @ repo_name @ '': '' @ s) w2))
         | RunRaised x \<Rightarrow> (Some x, w2))"

text \<open>Lines 123 to 128: the counters and the progress callback.\<close>

definition account_step :: "env \<Rightarrow> real \<Rightarrow> datasource \<Rightarrow> world \<Rightarrow> result" where
  "account_step e step_start self w =
     (let (t, w1) = time_time e w;
          elapsed = t - step_start;
          self1 = self\<lparr>total_processing_time := total_processing_time self + elapsed\<rparr>;
          self2 = self1\<lparr>processed_items := processed_items self1 + 1\<rparr>
      in case progress_callback self2 of
           None \<Rightarrow> (Returned, self2, w1)
         | Some cb \<Rightarrow>
             (let est_time = estimated_remaining_time self2;
                  w2 = emit (Callback (get_name self2) (total_to_process self2)
                                      (total_processed self2) est_time) w1
              in case cb (get_name self2) (total_to_process self2)
                         (total_processed self2) est_time of
                   Some x \<Rightarrow> (Raised x, self2, w2)
                 | None \<Rightarrow> (Returned, self2, w2)))"

text \<open>Lines 110 to 128: the body of the loop for one repository.\<close>

definition process_repo :: "env \<Rightarrow> string \<Rightarrow> path \<Rightarrow> datasource \<Rightarrow> world \<Rightarrow> string \<Rightarrow> result" where
  "process_repo e region target_directory self w repo =
     (let (step_start, w1) = time_time e w;
          repo_name = repo;
          clone_url = ''https://git-codecommit.'' @ region @ ''.amazonaws.com/v1/repos/'' @ repo_name;
          dest_path = os_path_join target_directory repo_name
      in case already_cloned (fs w1) dest_path of
           Inl x \<Rightarrow> (Raised x, self, w1)
         | Inr True \<Rightarrow>
             account_step e step_start self
               (BBLogger_log Info (''Repository '' @ repo_name @ '' already exists. Skipping clone.'') w1)
         | Inr False \<Rightarrow>
             (case try_clone e repo_name clone_url dest_path w1 of
                (Some x, w2) \<Rightarrow> (Raised x, self, w2)
              | (None, w2) \<Rightarrow> account_step e step_start self w2))"

fun fetch_loop :: "env \<Rightarrow> string \<Rightarrow> path \<Rightarrow> string list \<Rightarrow> datasource \<Rightarrow> world \<Rightarrow> result" where
  "fetch_loop e region target_directory [] self w = (Returned, self, w)"
| "fetch_loop e region target_directory (repo # repos) self w =
     (case process_repo e region target_directory self w repo of
        (Raised x, self', w') \<Rightarrow> (Raised x, self', w')
      | (Returned, self', w') \<Rightarrow> fetch_loop e region target_directory repos self' w')"

text \<open>
  The body of \<open>fetch\<close>, with the value of \<open>self._get_repositories()\<close> as the argument
  \<open>repos\<close>: the call is dispatched on the object, so a subclass may give another
  listing.
\<close>

definition fetch_from :: "string list \<Rightarrow> env \<Rightarrow> datasource \<Rightarrow> world \<Rightarrow> result" where
  "fetch_from repos e self w =
     (let (start_time, w1) = time_time e w;
          region = params_get (params self) ''region'';
          target_directory = params_get (params self) ''target_directory'';
          access_key = params_get (params self) ''access_key'';
          secret_key = params_get (params self) ''secret_key'';
          w2 = BBLogger_log Info (starting_message region target_directory) w1
      in case ensure_directory e target_directory w2 of
           (Some x, w3) \<Rightarrow> (Raised x, self, w3)
         | (None, w3) \<Rightarrow>
             (let self1 = self\<lparr>total_items := int (length repos)\<rparr>;
                  w4 = BBLogger_log Info
                         (''Found '' @ str_int (total_items self1) @ '' repositories.'') w3
              in case fetch_loop e region target_directory repos self1 w4 of
                   (Raised x, self2, w5) \<Rightarrow> (Raised x, self2, w5)
                 | (Returned, self2, w5) \<Rightarrow>
                     (Returned, self2\<lparr>fetch_completed := True\<rparr>,
                      BBLogger_log Info ''AWS CodeCommit fetch process completed.'' w5)))"

definition fetch :: "env \<Rightarrow> datasource \<Rightarrow> world \<Rightarrow> result" where
  "fetch e self w = fetch_from (get_repositories self) e self w"

text \<open>\<open>k\<close> successive calls of \<open>fetch\<close> on the same object; a call that raises ends them.\<close>

fun fetch_times :: "nat \<Rightarrow> string list \<Rightarrow> env \<Rightarrow> datasource \<Rightarrow> world \<Rightarrow> result" where
  "fetch_times 0 repos e self w = (Returned, self, w)"
| "fetch_times (Suc k) repos e self w =
     (case fetch_from repos e self w of
        (Raised x, self', w') \<Rightarrow> (Raised x, self', w')
      | (Returned, self', w') \<Rightarrow> fetch_times k repos e self' w')"

subsection \<open>Reading the recorded effects\<close>

fun runs_of :: "event list \<Rightarrow> string list list" where
  "runs_of [] = []"
| "runs_of (Run cmd # evs) = cmd # runs_of evs"
| "runs_of (ev # evs) = runs_of evs"

fun makedirs_of :: "event list \<Rightarrow> path list" where
  "makedirs_of [] = []"
| "makedirs_of (Makedirs p # evs) = p # makedirs_of evs"
| "makedirs_of (ev # evs) = makedirs_of evs"

fun callbacks_of :: "event list \<Rightarrow> (string \<times> int \<times> int \<times> real) list" where
  "callbacks_of [] = []"
| "callbacks_of (Callback nm tot cnt est # evs) = (nm, tot, cnt, est) # callbacks_of evs"
| "callbacks_of (ev # evs) = callbacks_of evs"

fun error_logs_of :: "event list \<Rightarrow> string list" where
  "error_logs_of [] = []"
| "error_logs_of (Log Error msg # evs) = msg # error_logs_of evs"
| "error_logs_of (ev # evs) = error_logs_of evs"

text \<open>A callback applied to the four arguments of one call.\<close>

definition apply_callback :: "progress_callback_t \<Rightarrow> string \<times> int \<times> int \<times> real \<Rightarrow> exn option" where
  "apply_callback cb c = (case c of (nm, tot, cnt, est) \<Rightarrow> cb nm tot cnt est)"

text \<open>
  Every item that the loop counts reads the clock twice, at its start and when it is
  counted. For a loop whose first clock read is number \<open>n\<close>, the time that \<open>k\<close>
  counted items add to \<open>_total_processing_time\<close> is the sum of these differences.
\<close>

definition elapsed :: "env \<Rightarrow> nat \<Rightarrow> nat \<Rightarrow> real" where
  "elapsed e n k = (\<Sum>j\<leftarrow>[0..<k]. clock e (n + 2 * j + 1) - clock e (n + 2 * j))"

text \<open>
  The progress report after item number \<open>i + 1\<close> of a loop that starts with the object
  \<open>self\<close> at clock read \<open>n\<close>: the task name, the total, the processed count (one more
  at each report), and the estimate of the base class for the counters of that moment.
\<close>

definition report :: "env \<Rightarrow> nat \<Rightarrow> datasource \<Rightarrow> nat \<Rightarrow> string \<times> int \<times> int \<times> real" where
  "report e n self i =
     (get_name self, total_to_process self, total_processed self + 1 + int i,
      estimated_remaining_time
        (self\<lparr>processed_items := processed_items self + 1 + int i,
              total_processing_time := total_processing_time self + elapsed e n (Suc i)\<rparr>))"

text \<open>
  What the loop does with a registered callback while it counts \<open>k\<close> items and ends
  with the outcome \<open>oc\<close>: the calls recorded in \<open>new\<close> are the \<open>k\<close> reports in
  order, every call before the last returned, and if the last call raised, that
  exception is the outcome. Without a callback nothing is called.
\<close>

definition reported :: "env \<Rightarrow> nat \<Rightarrow> datasource \<Rightarrow> nat \<Rightarrow> outcome \<Rightarrow> event list \<Rightarrow> bool" where
  "reported e n self k oc new =
     (case progress_callback self of
        None \<Rightarrow> callbacks_of new = []
      | Some cb \<Rightarrow>
          callbacks_of new = map (report e n self) [0..<k] \<and>
          (\<forall>i. Suc i < k \<longrightarrow> apply_callback cb (report e n self i) = None) \<and>
          (\<forall>i x. Suc i = k \<and> apply_callback cb (report e n self i) = Some x \<longrightarrow> oc = Raised x))"

text \<open>
  A call of \<open>fetch\<close> that returns reads the clock once at its start and twice for each
  of the \<open>N\<close> identifiers: the time that \<open>k\<close> such calls add, the first starting at
  clock read \<open>n\<close>.
\<close>

definition elapsed_calls :: "env \<Rightarrow> nat \<Rightarrow> nat \<Rightarrow> nat \<Rightarrow> real" where
  "elapsed_calls e n N k = (\<Sum>c\<leftarrow>[0..<k]. elapsed e (n + c * (2 * N + 1) + 1) N)"

text \<open>Two objects that differ at most in the processed count and the accumulated time.\<close>

definition same_setup :: "datasource \<Rightarrow> datasource \<Rightarrow> bool" where
  "same_setup a b =
     (name a = name b \<and> params a = params b \<and> progress_callback a = progress_callback b
      \<and> total_items a = total_items b \<and> fetch_completed a = fetch_completed b)"

definition clone_invocations :: "world \<Rightarrow> string list list" where
  "clone_invocations w = runs_of (events w)"

text \<open>A destination that the loop skips: an existing directory with at least one entry.\<close>

definition nonempty_dir :: "filesystem \<Rightarrow> path \<Rightarrow> bool" where
  "nonempty_dir f p = (case f p of Some (Dir entries) \<Rightarrow> entries \<noteq> [] | _ \<Rightarrow> False)"

text \<open>
  Lines 129 and 130, after a loop that ended with the result \<open>r\<close>: when the loop
  returned, the run is marked completed and the completion is logged; an exception
  passes through.
\<close>

definition completed :: "result \<Rightarrow> result" where
  "completed r =
     (case r of
        (Returned, self, w) \<Rightarrow>
          (Returned, self\<lparr>fetch_completed := True\<rparr>,
           BBLogger_log Info ''AWS CodeCommit fetch process completed.'' w)
      | (Raised x, self, w) \<Rightarrow> (Raised x, self, w))"

text \<open>
  The world in which the loop over the listing starts: the file system \<open>f\<close>, one clock
  read after \<open>w\<close>, and the events \<open>evs\<close> recorded since.
\<close>

definition starting_world :: "world \<Rightarrow> filesystem \<Rightarrow> event list \<Rightarrow> world" where
  "starting_world w f evs = \<lparr>fs = f, now = Suc (now w), events = events w @ evs\<rparr>"

definition is_directory :: "filesystem \<Rightarrow> path \<Rightarrow> bool" where
  "is_directory f p = (case f p of Some (Dir entries) \<Rightarrow> True | Some NoAccess \<Rightarrow> True | _ \<Rightarrow> False)"

text \<open>
  The parent path segments of a path: its prefixes that end before a separator, as
  \<open>a\<close> and \<open>a/b\<close> for \<open>a/b/c\<close>.
\<close>

definition parent_segments :: "path \<Rightarrow> path list" where
  "parent_segments p =
     [take i p. i \<leftarrow> [1..<length p], p ! i = CHR ''/'' \<and> p ! (i - 1) \<noteq> CHR ''/'']"

text \<open>
  The documented contract of \<open>os.makedirs\<close>, "recursive directory creation function
  [that] makes all intermediate-level directories needed to contain the leaf": when it
  returns, the path and all its parent segments are directories.
\<close>

definition creates_parents :: "(path \<Rightarrow> filesystem \<Rightarrow> exn option \<times> filesystem) \<Rightarrow> bool" where
  "creates_parents mk =
     (\<forall>p f f'. mk p f = (None, f') \<longrightarrow>
        is_directory f' p \<and> list_all (is_directory f') (parent_segments p))"

subsection \<open>Concrete runs\<close>

definition example_params :: "string \<rightharpoonup> string" where
  "example_params =
     [''region'' \<mapsto> ''us-east-1'', ''target_directory'' \<mapsto> ''repos'',
      ''access_key'' \<mapsto> ''AKIA'', ''secret_key'' \<mapsto> ''s3cr3t'']"

definition other_keys_params :: "string \<rightharpoonup> string" where
  "other_keys_params =
     [''region'' \<mapsto> ''us-east-1'', ''target_directory'' \<mapsto> ''repos'',
      ''access_key'' \<mapsto> ''OTHER'']"

text \<open>The target directory with \<open>Repo1\<close> cloned already.\<close>

definition example_fs :: filesystem where
  "example_fs = [''repos'' \<mapsto> Dir [''Repo1''], ''repos/Repo1'' \<mapsto> Dir [''.git'']]"

definition example_world :: world where
  "example_world = \<lparr>fs = example_fs, now = 0, events = []\<rparr>"

definition empty_world :: world where
  "empty_world = \<lparr>fs = Map.empty, now = 0, events = []\<rparr>"

text \<open>The target directory with a regular file where \<open>Repo1\<close> would be cloned.\<close>

definition file_world :: world where
  "file_world = \<lparr>fs = [''repos'' \<mapsto> Dir [''Repo1''], ''repos/Repo1'' \<mapsto> File],
                  now = 0, events = []\<rparr>"

definition makedirs_ok :: "path \<Rightarrow> filesystem \<Rightarrow> exn option \<times> filesystem" where
  "makedirs_ok p f = (None, f(p \<mapsto> Dir []))"

definition makedirs_denied :: "path \<Rightarrow> filesystem \<Rightarrow> exn option \<times> filesystem" where
  "makedirs_denied p f = (Some PermissionError, f)"

text \<open>A clone that succeeds and leaves a work tree at the destination.\<close>

definition clone_ok :: "nat \<Rightarrow> string list \<Rightarrow> filesystem \<Rightarrow> run_result \<times> filesystem" where
  "clone_ok t cmd f = (CompletedProcess, f(last cmd \<mapsto> Dir [''.git'']))"

text \<open>A clone that exits with a non-zero status and leaves nothing behind.\<close>

definition clone_fails :: "char list \<Rightarrow> nat \<Rightarrow> string list \<Rightarrow> filesystem \<Rightarrow> run_result \<times> filesystem" where
  "clone_fails stderr t cmd f = (CalledProcessError stderr, f)"

definition clone_mixed :: "nat \<Rightarrow> string list \<Rightarrow> filesystem \<Rightarrow> run_result \<times> filesystem" where
  "clone_mixed t cmd f =
     (if last cmd = ''repos/Repo3'' then clone_fails ''fatal: repository not found'' t cmd f
      else clone_ok t cmd f)"

definition example_env :: env where
  "example_env = \<lparr>clock = real, os_makedirs = makedirs_ok, subprocess_run = clone_mixed\<rparr>"

definition cloning_env :: env where
  "cloning_env = \<lparr>clock = real, os_makedirs = makedirs_ok, subprocess_run = clone_ok\<rparr>"

definition failing_env :: env where
  "failing_env =
     \<lparr>clock = real, os_makedirs = makedirs_ok,
      subprocess_run = clone_fails ''fatal: repository not found''\<rparr>"

definition undecodable_env :: env where
  "undecodable_env =
     \<lparr>clock = real, os_makedirs = makedirs_ok, subprocess_run = clone_fails [CHR 0xFF]\<rparr>"

definition denied_env :: env where
  "denied_env = \<lparr>clock = real, os_makedirs = makedirs_denied, subprocess_run = clone_ok\<rparr>"

definition silent_callback :: progress_callback_t where
  "silent_callback nm tot cnt est = None"

definition watched_source :: datasource where
  "watched_source = (init ''sync'' example_params)\<lparr>progress_callback := Some silent_callback\<rparr>"

text \<open>
  An \<open>os.makedirs\<close> that creates the missing parents and the leaf, and refuses an
  empty path, an existing leaf and a parent that is a regular file.
\<close>

definition mkdir_missing :: "path \<Rightarrow> filesystem \<Rightarrow> filesystem" where
  "mkdir_missing q g = (if g q = None then g(q \<mapsto> Dir []) else g)"

definition makedirs_posix :: "path \<Rightarrow> filesystem \<Rightarrow> exn option \<times> filesystem" where
  "makedirs_posix p f =
     (if p = [] then (Some FileNotFoundError, f)
      else if f p \<noteq> None then (Some (OSError ''FileExistsError''), f)
      else if list_ex (\<lambda>q. f q = Some File) (parent_segments p) then (Some NotADirectoryError, f)
      else (None, fold mkdir_missing (parent_segments p @ [p]) f))"

definition posix_env :: env where
  "posix_env = \<lparr>clock = real, os_makedirs = makedirs_posix, subprocess_run = clone_ok\<rparr>"

definition nested_params :: "string \<rightharpoonup> string" where
  "nested_params = [''region'' \<mapsto> ''us-east-1'', ''target_directory'' \<mapsto> ''data/aws/repos'']"

text \<open>A callback that raises when it is told of the second item.\<close>

definition stopping_callback :: progress_callback_t where
  "stopping_callback nm tot cnt est = (if cnt = 2 then Some (OtherException ''stop'') else None)"

definition stopped_source :: datasource where
  "stopped_source = (init ''sync'' example_params)\<lparr>progress_callback := Some stopping_callback\<rparr>"

definition first_run :: result where
  "first_run = fetch failing_env (init ''sync'' example_params) example_world"

definition second_run :: result where
  "second_run = fetch failing_env (self_of first_run) (world_of first_run)"

section \<open>The P2P listing function\<close>

text \<open>
  \<open>get_bybit_p2p_opportunities\<close> sends one HTTP request and picks the list of offers
  out of the JSON answer. A value that \<open>response.json()\<close> returns is one of these;
  a dictionary is the list of its items, each key once.
\<close>

datatype pyval =
    PNone
  | PBool bool
  | PInt int
  | PFloat real
  | PStr string
  | PList "pyval list"
  | PDict "(string \<times> pyval) list"

definition is_list :: "pyval \<Rightarrow> bool" where
  "is_list v = (case v of PList items \<Rightarrow> True | _ \<Rightarrow> False)"

text \<open>\<open>d.get(key, default)\<close> on a dictionary.\<close>

definition dict_get :: "(string \<times> pyval) list \<Rightarrow> string \<Rightarrow> pyval \<Rightarrow> pyval" where
  "dict_get d k dflt = (case map_of d k of None \<Rightarrow> dflt | Some v \<Rightarrow> v)"

text \<open>\<open>v == 0\<close>: true for the integer 0, the float 0.0 and for \<open>False\<close>, which is an integer.\<close>

definition equals_zero :: "pyval \<Rightarrow> bool" where
  "equals_zero v =
     (case v of PInt i \<Rightarrow> i = 0 | PFloat x \<Rightarrow> x = 0 | PBool b \<Rightarrow> \<not> b | _ \<Rightarrow> False)"

text \<open>\<open>str.upper\<close>, on the letters of ASCII.\<close>

definition ascii_upper :: "char \<Rightarrow> char" where
  "ascii_upper c =
     (if 97 \<le> (of_char c :: nat) \<and> (of_char c :: nat) \<le> 122
      then char_of ((of_char c :: nat) - 32) else c)"

definition str_upper :: "string \<Rightarrow> string" where
  "str_upper s = map ascii_upper s"

text \<open>
  What \<open>requests.get\<close> gives: it raises a \<open>RequestException\<close> (with its text), or it
  returns a response. Of a response the function uses the status code (for
  \<open>raise_for_status\<close>, which raises an \<open>HTTPError\<close> with the text \<open>http_error\<close> for
  a code from 400 to 599) and the body as \<open>response.json()\<close> reads it: a value, or
  the text of the \<open>JSONDecodeError\<close> it raises, a \<open>RequestException\<close> too since
  requests 2.27.
\<close>

record response =
  status_code :: nat
  http_error :: string
  body_json :: "string + pyval"

datatype http_reply = GetRaised string | GetReturned response

text \<open>
  The lines printed: \<open>HTTP request failed:\<close> with the text of the exception, and
  \<open>Error from API:\<close> with the value of \<open>ret_msg\<close>.
\<close>

datatype printed = HttpRequestFailed string | ErrorFromApi pyval

definition get_bybit_p2p_opportunities ::
  "(string \<Rightarrow> (string \<times> string) list \<Rightarrow> http_reply) \<Rightarrow> string \<Rightarrow> string \<Rightarrow> string
     \<Rightarrow> (exn + pyval) \<times> printed list" where
  "get_bybit_p2p_opportunities requests_get base_currency trade_type fiat_currency =
     (let url = ''https://api2.bybit.com/spot/api/otc/item/list'';
          query = [(''userId'', []), (''tokenId'', base_currency),
                   (''currencyId'', fiat_currency), (''side'', str_upper trade_type),
                   (''size'', ''10''), (''page'', ''1'')]
      in case requests_get url query of
           GetRaised msg \<Rightarrow> (Inr (PList []), [HttpRequestFailed msg])
         | GetReturned resp \<Rightarrow>
             if 400 \<le> status_code resp \<and> status_code resp < 600 then
               (Inr (PList []), [HttpRequestFailed (http_error resp)])
             else
               (case body_json resp of
                  Inl msg \<Rightarrow> (Inr (PList []), [HttpRequestFailed msg])
                | Inr data \<Rightarrow>
                    (case data of
                       PDict d \<Rightarrow>
                         if equals_zero (dict_get d ''ret_code'' PNone) then
                           (case dict_get d ''result'' (PDict []) of
                              PDict res \<Rightarrow> (Inr (dict_get res ''items'' (PList [])), [])
                            | other \<Rightarrow> (Inl AttributeError, []))
                         else (Inr (PList []), [ErrorFromApi (dict_get d ''ret_msg'' PNone)])
                     | other \<Rightarrow> (Inl AttributeError, []))))"

text \<open>A server that answers with status 200 and the given JSON value as the body.\<close>

definition answers :: "pyval \<Rightarrow> string \<Rightarrow> (string \<times> string) list \<Rightarrow> http_reply" where
  "answers v url query = GetReturned \<lparr>status_code = 200, http_error = [], body_json = Inr v\<rparr>"

definition null_items :: pyval where
  "null_items = PDict [(''ret_code'', PInt 0), (''result'', PDict [(''items'', PNone)])]"

definition null_result :: pyval where
  "null_result = PDict [(''ret_code'', PInt 0), (''result'', PNone)]"

definition two_offers :: pyval where
  "two_offers =
     PDict [(''ret_code'', PInt 0),
            (''result'', PDict [(''items'', PList [PDict [(''nickname'', PStr ''a'')],
                                                   PDict [(''nickname'', PStr ''b'')]])])]"

section \<open>Properties of the sync run\<close>

text \<open>The equations that evaluate a run on concrete inputs.\<close>

lemmas run_defs =
  fetch_def fetch_from_def get_repositories_def process_repo_def account_step_def
  try_clone_def already_cloned_def ensure_directory_def time_time_def emit_def
  BBLogger_log_def os_path_exists_def os_listdir_def os_path_join_def params_get_def
  init_def outcome_of_def self_of_def world_of_def decode_def cont_byte_def
  get_name_def total_to_process_def total_processed_def estimated_remaining_time_def
  apostrophe_def starting_message_def clone_invocations_def nonempty_dir_def Let_def

lemmas example_defs =
  example_params_def other_keys_params_def example_fs_def example_world_def
  empty_world_def file_world_def makedirs_ok_def makedirs_denied_def clone_ok_def
  clone_fails_def clone_mixed_def example_env_def cloning_env_def failing_env_def
  undecodable_env_def denied_env_def silent_callback_def watched_source_def
  posix_env_def nested_params_def stopping_callback_def stopped_source_def

lemma str_int_3 [simp]: "str_int 3 = ''3''"
  by code_simp

subsection \<open>What one step and the loop do to the object\<close>

lemma account_step_fields:
  "account_step e t0 self w = (oc, self', w') \<Longrightarrow>
     processed_items self' = processed_items self + 1 \<and>
     total_items self' = total_items self \<and>
     fetch_completed self' = fetch_completed self \<and>
     progress_callback self' = progress_callback self \<and>
     name self' = name self \<and> params self' = params self"
  by (auto simp: account_step_def time_time_def Let_def split: option.splits prod.splits)

lemma process_repo_fields:
  "process_repo e region target self w repo = (Returned, self', w') \<Longrightarrow>
     processed_items self' = processed_items self + 1 \<and>
     total_items self' = total_items self \<and>
     fetch_completed self' = fetch_completed self \<and>
     progress_callback self' = progress_callback self \<and>
     name self' = name self \<and> params self' = params self"
  by (auto simp: process_repo_def Let_def
      split: prod.splits sum.splits bool.splits option.splits
      dest!: account_step_fields)

lemma fetch_loop_fields:
  "fetch_loop e region target repos self w = (Returned, self', w') \<Longrightarrow>
     processed_items self' = processed_items self + int (length repos) \<and>
     total_items self' = total_items self \<and>
     fetch_completed self' = fetch_completed self \<and>
     progress_callback self' = progress_callback self \<and>
     name self' = name self \<and> params self' = params self"
proof (induction repos arbitrary: self w)
  case Nil
  then show ?case by simp
next
  case (Cons repo repos)
  from Cons.prems obtain s1 w1 where
    step: "process_repo e region target self w repo = (Returned, s1, w1)" and
    rest: "fetch_loop e region target repos s1 w1 = (Returned, self', w')"
    by (auto split: prod.splits outcome.splits)
  from process_repo_fields [OF step] Cons.IH [OF rest] show ?case by simp
qed

lemma fetch_from_returned:
  "fetch_from repos e self w = (Returned, self', w') \<Longrightarrow>
     processed_items self' = processed_items self + int (length repos) \<and>
     total_items self' = int (length repos) \<and> fetch_completed self' \<and>
     progress_callback self' = progress_callback self \<and>
     name self' = name self \<and> params self' = params self"
  by (auto simp: fetch_from_def Let_def split: prod.splits option.splits outcome.splits
      dest!: fetch_loop_fields)

lemma result_parts: "r = (outcome_of r, self_of r, world_of r)"
  by (simp add: outcome_of_def self_of_def world_of_def)

subsection \<open>What one step and the loop add to the recorded effects\<close>

lemma runs_of_append: "runs_of (xs @ ys) = runs_of xs @ runs_of ys"
  by (induction xs rule: runs_of.induct) auto

lemma makedirs_of_append: "makedirs_of (xs @ ys) = makedirs_of xs @ makedirs_of ys"
  by (induction xs rule: makedirs_of.induct) auto

lemma callbacks_of_append: "callbacks_of (xs @ ys) = callbacks_of xs @ callbacks_of ys"
  by (induction xs rule: callbacks_of.induct) auto

lemma elapsed_0: "elapsed e n 0 = 0"
  by (simp add: elapsed_def)

lemma elapsed_1: "elapsed e n (Suc 0) = clock e (Suc n) - clock e n"
  by (simp add: elapsed_def)

lemma upt_0_Suc: "[0..<Suc k] = 0 # map Suc [0..<k]"
  by (simp add: upt_conv_Cons map_Suc_upt del: upt_Suc)

lemma elapsed_shift: "elapsed e n (Suc k) = (clock e (Suc n) - clock e n) + elapsed e (n + 2) k"
proof -
  have "elapsed e n (Suc k)
          = (\<Sum>j\<leftarrow>0 # map Suc [0..<k]. clock e (n + 2 * j + 1) - clock e (n + 2 * j))"
    unfolding elapsed_def upt_0_Suc ..
  also have "\<dots> = (clock e (Suc n) - clock e n)
          + (\<Sum>j\<leftarrow>[0..<k]. clock e (n + 2 + 2 * j + 1) - clock e (n + 2 + 2 * j))"
    by (simp add: o_def)
  finally show ?thesis by (simp add: elapsed_def)
qed

lemma same_setup_trans: "same_setup a b \<Longrightarrow> same_setup b c \<Longrightarrow> same_setup a c"
  by (simp add: same_setup_def)

text \<open>The reports of a loop, seen from the state after its first counted item.\<close>

lemma report_shift:
  assumes "same_setup s1 self"
      and "processed_items s1 = processed_items self + 1"
      and "total_processing_time s1 = total_processing_time self + elapsed e n (Suc 0)"
  shows "report e (n + 2) s1 i = report e n self (Suc i)"
proof -
  have "s1\<lparr>processed_items := processed_items self + 1 + 1 + int i,
           total_processing_time := total_processing_time self + elapsed e n (Suc 0)
              + elapsed e (n + 2) (Suc i)\<rparr>
        = self\<lparr>processed_items := processed_items self + 1 + int (Suc i),
               total_processing_time := total_processing_time self + elapsed e n (Suc (Suc i))\<rparr>"
    using assms(1)
    by (cases s1, cases self) (simp add: same_setup_def elapsed_shift [of e n "Suc i"] elapsed_1)
  with assms show ?thesis
    by (simp add: report_def same_setup_def get_name_def total_to_process_def total_processed_def)
qed

lemma account_step_effects:
  assumes "account_step e t0 self w = (oc, self', w')"
  shows "same_setup self' self \<and> processed_items self' = processed_items self + 1 \<and>
         total_processing_time self' = total_processing_time self + (clock e (now w) - t0) \<and>
         fs w' = fs w \<and> now w' = Suc (now w) \<and>
         (\<exists>new. events w' = events w @ new \<and> runs_of new = [] \<and> makedirs_of new = [] \<and>
            callbacks_of new =
              (if progress_callback self = None then []
               else [(get_name self, total_to_process self, total_processed self + 1,
                      estimated_remaining_time self')]) \<and>
            (\<forall>cb. progress_callback self = Some cb \<longrightarrow>
               oc = (case cb (get_name self) (total_to_process self) (total_processed self + 1)
                            (estimated_remaining_time self') of
                       None \<Rightarrow> Returned | Some x \<Rightarrow> Raised x)) \<and>
            (progress_callback self = None \<longrightarrow> oc = Returned))"
  using assms
  by (auto simp: account_step_def time_time_def emit_def Let_def same_setup_def
      get_name_def total_to_process_def total_processed_def
      split: option.splits prod.splits)

lemma try_clone_effects:
  assumes "try_clone e repo url dest w = (x, w')"
  shows "now w' = now w \<and>
         (\<exists>new. events w' = events w @ new \<and> makedirs_of new = [] \<and> callbacks_of new = []
           \<and> runs_of new = [[''git'', ''clone'', url, dest]])"
  using assms
  by (auto simp: try_clone_def emit_def BBLogger_log_def Let_def
      split: prod.splits run_result.splits sum.splits)


lemma account_step_report:
  assumes "account_step e (clock e n) self w = (oc, self', w')" and "now w = Suc n"
  shows "same_setup self' self \<and> processed_items self' = processed_items self + 1 \<and>
         total_processing_time self' = total_processing_time self + elapsed e n (Suc 0) \<and>
         fs w' = fs w \<and> now w' = n + 2 \<and>
         (\<exists>new. events w' = events w @ new \<and> runs_of new = [] \<and> makedirs_of new = [] \<and>
            reported e n self 1 oc new)"
proof -
  have self': "self' = self\<lparr>total_processing_time := total_processing_time self + elapsed e n (Suc 0),
                            processed_items := processed_items self + 1\<rparr>"
    using assms by (auto simp: account_step_def time_time_def Let_def elapsed_1 split: option.splits)
  then have rep: "report e n self 0 =
      (get_name self, total_to_process self, total_processed self + 1, estimated_remaining_time self')"
    by (simp add: report_def estimated_remaining_time_def)
  from account_step_effects [OF assms(1)] assms(2) obtain new where
    a: "same_setup self' self" "processed_items self' = processed_items self + 1"
       "total_processing_time self' = total_processing_time self + elapsed e n (Suc 0)"
       "fs w' = fs w" "now w' = n + 2"
       "events w' = events w @ new" "runs_of new = []" "makedirs_of new = []"
       "callbacks_of new = (if progress_callback self = None then []
           else [(get_name self, total_to_process self, total_processed self + 1,
                  estimated_remaining_time self')])"
       "\<forall>cb. progress_callback self = Some cb \<longrightarrow>
           oc = (case cb (get_name self) (total_to_process self) (total_processed self + 1)
                        (estimated_remaining_time self') of
                   None \<Rightarrow> Returned | Some x \<Rightarrow> Raised x)"
    by (auto simp: elapsed_1)
  have "reported e n self 1 oc new"
  proof (cases "progress_callback self")
    case None
    with a(9) show ?thesis by (simp add: reported_def)
  next
    case (Some cb)
    with a(9,10) rep show ?thesis
      by (auto simp: reported_def apply_callback_def split: option.splits)
  qed
  with a show ?thesis by blast
qed


lemma reported_nothing: "reported e n self 0 oc []"
  by (simp add: reported_def split: option.splits)

lemma reported_without_calls:
  "callbacks_of pre = [] \<Longrightarrow> reported e n self k oc new \<Longrightarrow> reported e n self k oc (pre @ new)"
  by (simp add: reported_def callbacks_of_append split: option.splits)

lemma process_repo_effects:
  assumes "process_repo e region target self w repo = (oc, self', w')"
  shows "same_setup self' self \<and>
         (\<exists>new k. events w' = events w @ new \<and> makedirs_of new = [] \<and> k \<le> 1 \<and>
            processed_items self' = processed_items self + int k \<and>
            total_processing_time self' = total_processing_time self + elapsed e (now w) k \<and>
            (oc = Returned \<longrightarrow> k = 1 \<and> now w' = now w + 2) \<and>
            reported e (now w) self k oc new)"
proof -
  let ?n = "now w"
  let ?w1 = "w\<lparr>now := Suc ?n\<rparr>"
  have tt: "time_time e w = (clock e ?n, ?w1)"
    by (simp add: time_time_def)
  let ?dest = "os_path_join target repo"
  let ?url = "''https://git-codecommit.'' @ region @ ''.amazonaws.com/v1/repos/'' @ repo"
  show ?thesis
  proof (cases "already_cloned (fs ?w1) ?dest")
    case (Inl x)
    with assms tt have "oc = Raised x" "self' = self" "w' = ?w1"
      by (simp_all add: process_repo_def Let_def)
    then show ?thesis
      by (intro conjI exI [of _ "[]"] exI [of _ "0::nat"])
         (simp_all add: same_setup_def elapsed_0 reported_nothing)
  next
    case (Inr skip)
    show ?thesis
    proof (cases skip)
      case True
      let ?msg = "Log Info (''Repository '' @ repo @ '' already exists. Skipping clone.'')"
      let ?w2 = "BBLogger_log Info (''Repository '' @ repo @ '' already exists. Skipping clone.'') ?w1"
      from assms tt Inr True have acc: "account_step e (clock e ?n) self ?w2 = (oc, self', w')"
        by (simp add: process_repo_def Let_def)
      have w2: "now ?w2 = Suc ?n" "events ?w2 = events w @ [?msg]"
        by (simp_all add: BBLogger_log_def emit_def)
      from account_step_report [OF acc w2(1)] obtain new where
        n: "same_setup self' self" "processed_items self' = processed_items self + 1"
           "total_processing_time self' = total_processing_time self + elapsed e ?n (Suc 0)"
           "now w' = ?n + 2"
           "events w' = events ?w2 @ new" "makedirs_of new = []" "reported e ?n self 1 oc new"
        by blast
      have rep: "reported e ?n self 1 oc ([?msg] @ new)"
        using n(7) by (intro reported_without_calls) simp_all
      from n w2 rep show ?thesis
        by (intro conjI exI [of _ "[?msg] @ new"] exI [of _ "1::nat"])
           (simp_all add: makedirs_of_append)
    next
      case False
      obtain x w2 where tc: "try_clone e repo ?url ?dest ?w1 = (x, w2)"
        by (cases "try_clone e repo ?url ?dest ?w1")
      from try_clone_effects [OF tc] obtain new1 where
        n1: "now w2 = Suc ?n" "events w2 = events w @ new1" "makedirs_of new1 = []"
            "callbacks_of new1 = []"
        by auto
      show ?thesis
      proof (cases x)
        case (Some ex)
        with assms tt Inr False tc have "oc = Raised ex" "self' = self" "w' = w2"
          by (simp_all add: process_repo_def Let_def)
        with n1 show ?thesis
          by (intro conjI exI [of _ new1] exI [of _ "0::nat"])
             (simp_all add: same_setup_def elapsed_0 reported_def split: option.splits)
      next
        case None
        with assms tt Inr False tc have acc: "account_step e (clock e ?n) self w2 = (oc, self', w')"
          by (simp add: process_repo_def Let_def)
        from account_step_report [OF acc n1(1)] obtain new where
          n: "same_setup self' self" "processed_items self' = processed_items self + 1"
             "total_processing_time self' = total_processing_time self + elapsed e ?n (Suc 0)"
             "now w' = ?n + 2"
             "events w' = events w2 @ new" "makedirs_of new = []" "reported e ?n self 1 oc new"
          by blast
        have rep: "reported e ?n self 1 oc (new1 @ new)"
          using n1(4) n(7) by (rule reported_without_calls)
        from n n1 rep show ?thesis
          by (intro conjI exI [of _ "new1 @ new"] exI [of _ "1::nat"])
             (simp_all add: makedirs_of_append)
      qed
    qed
  qed
qed

text \<open>The reports of a first item that returned, followed by those of the rest of the loop.\<close>

lemma reported_Cons:
  assumes first: "reported e n self 1 Returned new1"
      and rest: "reported e (n + 2) s1 k2 oc new2"
      and link: "same_setup s1 self" "processed_items s1 = processed_items self + 1"
                "total_processing_time s1 = total_processing_time self + elapsed e n (Suc 0)"
  shows "reported e n self (Suc k2) oc (new1 @ new2)"
proof (cases "progress_callback self")
  case None
  with link(1) have "progress_callback s1 = None" by (simp add: same_setup_def)
  with None first rest show ?thesis
    by (simp add: reported_def callbacks_of_append)
next
  case (Some cb)
  with link(1) have cb1: "progress_callback s1 = Some cb" by (simp add: same_setup_def)
  have shift: "report e (n + 2) s1 i = report e n self (Suc i)" for i
    using link by (rule report_shift)
  have shift': "report e (Suc (Suc n)) s1 i = report e n self (Suc i)" for i
    using shift [of i] by simp
  from first Some have f: "callbacks_of new1 = [report e n self 0]"
      "apply_callback cb (report e n self 0) = None"
    by (auto simp: reported_def)
  from rest cb1 have r: "callbacks_of new2 = map (report e (n + 2) s1) [0..<k2]"
      "\<forall>i. Suc i < k2 \<longrightarrow> apply_callback cb (report e (n + 2) s1 i) = None"
      "\<forall>i x. Suc i = k2 \<and> apply_callback cb (report e (n + 2) s1 i) = Some x \<longrightarrow> oc = Raised x"
    by (simp_all add: reported_def)
  have calls: "callbacks_of (new1 @ new2) = map (report e n self) [0..<Suc k2]"
  proof -
    have "map (report e (n + 2) s1) [0..<k2] = map (\<lambda>i. report e n self (Suc i)) [0..<k2]"
      by (rule map_cong [OF refl]) (rule shift)
    with f(1) r(1) show ?thesis
      unfolding upt_0_Suc by (simp add: callbacks_of_append o_def)
  qed
  have early: "apply_callback cb (report e n self i) = None" if "Suc i < Suc k2" for i
  proof (cases i)
    case 0
    with f(2) show ?thesis by simp
  next
    case (Suc j)
    with that r(2) have "apply_callback cb (report e (n + 2) s1 j) = None" by simp
    with Suc show ?thesis by (simp add: shift')
  qed
  have last: "oc = Raised x" if "Suc i = Suc k2" "apply_callback cb (report e n self i) = Some x" for i x
  proof (cases i)
    case 0
    with that(2) f(2) show ?thesis by simp
  next
    case (Suc j)
    from Suc that(1) have j: "Suc j = k2" by simp
    from Suc that(2) have "apply_callback cb (report e (n + 2) s1 j) = Some x"
      unfolding shift [of j] by simp
    with j r(3) show ?thesis by blast
  qed
  from Some calls early last show ?thesis
    unfolding reported_def by (simp del: upt_Suc)
qed


lemma fetch_loop_effects:
  "fetch_loop e region target repos self w = (oc, self', w') \<Longrightarrow>
     same_setup self' self \<and>
     (\<exists>new k. events w' = events w @ new \<and> makedirs_of new = [] \<and> k \<le> length repos \<and>
        processed_items self' = processed_items self + int k \<and>
        total_processing_time self' = total_processing_time self + elapsed e (now w) k \<and>
        (oc = Returned \<longrightarrow> k = length repos \<and> now w' = now w + 2 * k) \<and>
        reported e (now w) self k oc new)"
proof (induction repos arbitrary: self w)
  case Nil
  then have "oc = Returned" "self' = self" "w' = w" by simp_all
  then show ?case
    by (intro conjI exI [of _ "[]"] exI [of _ "0::nat"])
       (simp_all add: same_setup_def elapsed_0 reported_nothing)
next
  case (Cons repo repos)
  obtain oc1 s1 w1 where step: "process_repo e region target self w repo = (oc1, s1, w1)"
    by (cases "process_repo e region target self w repo")
  from process_repo_effects [OF step] obtain new1 k1 where
    a: "same_setup s1 self" "events w1 = events w @ new1" "makedirs_of new1 = []" "k1 \<le> 1"
       "processed_items s1 = processed_items self + int k1"
       "total_processing_time s1 = total_processing_time self + elapsed e (now w) k1"
       "oc1 = Returned \<longrightarrow> k1 = 1 \<and> now w1 = now w + 2"
       "reported e (now w) self k1 oc1 new1"
    by blast
  show ?case
  proof (cases oc1)
    case (Raised x)
    with Cons.prems step have "oc = Raised x" "self' = s1" "w' = w1" by simp_all
    with a Raised show ?thesis
      by (intro conjI exI [of _ new1] exI [of _ k1]) simp_all
  next
    case Returned
    with Cons.prems step have rest: "fetch_loop e region target repos s1 w1 = (oc, self', w')"
      by simp
    from a(7) Returned have k1: "k1 = 1" and now1: "now w1 = now w + 2" by simp_all
    from Cons.IH [OF rest] now1 obtain new2 k2 where
      b: "same_setup self' s1" "events w' = events w1 @ new2" "makedirs_of new2 = []"
         "k2 \<le> length repos"
         "processed_items self' = processed_items s1 + int k2"
         "total_processing_time self' = total_processing_time s1 + elapsed e (now w + 2) k2"
         "oc = Returned \<longrightarrow> k2 = length repos \<and> now w' = now w + 2 + 2 * k2"
         "reported e (now w + 2) s1 k2 oc new2"
      by auto
    have ss: "same_setup self' self"
      using a(1) b(1) by (rule same_setup_trans [rotated])
    have ev: "events w' = events w @ (new1 @ new2)"
      using a(2) b(2) by simp
    have mk: "makedirs_of (new1 @ new2) = []"
      using a(3) b(3) by (simp add: makedirs_of_append)
    have le: "Suc k2 \<le> length (repo # repos)"
      using b(4) by simp
    have pr: "processed_items self' = processed_items self + int (Suc k2)"
      using a(5) b(5) k1 by simp
    have tm: "total_processing_time self' = total_processing_time self + elapsed e (now w) (Suc k2)"
      using a(6) b(6) k1 by (simp add: elapsed_shift [of e "now w" k2] elapsed_1)
    have ret: "oc = Returned \<longrightarrow> Suc k2 = length (repo # repos) \<and> now w' = now w + 2 * Suc k2"
      using b(7) by simp
    have rp: "reported e (now w) self (Suc k2) oc (new1 @ new2)"
    proof (rule reported_Cons)
      show "reported e (now w) self 1 Returned new1" using a(8) k1 Returned by simp
      show "reported e (now w + 2) s1 k2 oc new2" by (rule b(8))
      show "same_setup s1 self" by (rule a(1))
      show "processed_items s1 = processed_items self + 1" using a(5) k1 by simp
      show "total_processing_time s1 = total_processing_time self + elapsed e (now w) (Suc 0)"
        using a(6) k1 by simp
    qed
    from ss ev mk le pr tm ret rp show ?thesis
      by blast
  qed
qed

subsection \<open>The counters at the end of a run\<close>

text \<open>
  C1. A run of \<open>fetch\<close> on a freshly constructed object (with or without a progress
  callback) over a listing of \<open>N\<close> identifiers that returns leaves
  \<open>_processed_items = N\<close> and \<open>_fetch_completed = True\<close>, whatever happened to the
  single clones: the statement does not look at the file system, the clone tool or
  the clock.
\<close>

theorem fetch_processes_every_item:
  assumes "outcome_of (fetch_from repos e ((init nm ps)\<lparr>progress_callback := cb\<rparr>) w) = Returned"
  shows "processed_items (self_of (fetch_from repos e ((init nm ps)\<lparr>progress_callback := cb\<rparr>) w))
           = int (length repos)
         \<and> fetch_completed (self_of (fetch_from repos e ((init nm ps)\<lparr>progress_callback := cb\<rparr>) w))"
proof -
  let ?r = "fetch_from repos e ((init nm ps)\<lparr>progress_callback := cb\<rparr>) w"
  have "?r = (Returned, self_of ?r, world_of ?r)"
    using assms result_parts [of ?r] by simp
  from fetch_from_returned [OF this] show ?thesis
    by (simp add: init_def)
qed

text \<open>
  The run of the example: \<open>Repo1\<close> is skipped, \<open>Repo2\<close> is cloned, the clone of
  \<open>Repo3\<close> fails, and the counter still reaches 3.
\<close>

theorem fetch_processes_every_item_witness:
  "outcome_of (fetch_from (get_repositories (init ''sync'' example_params)) example_env
      ((init ''sync'' example_params)\<lparr>progress_callback := None\<rparr>) example_world) = Returned
   \<and> processed_items (self_of (fetch_from (get_repositories (init ''sync'' example_params))
        example_env ((init ''sync'' example_params)\<lparr>progress_callback := None\<rparr>) example_world)) = 3
   \<and> fetch_completed (self_of (fetch_from (get_repositories (init ''sync'' example_params))
        example_env ((init ''sync'' example_params)\<lparr>progress_callback := None\<rparr>) example_world))"
proof -
  have ran: "outcome_of (fetch_from (get_repositories (init ''sync'' example_params)) example_env
      ((init ''sync'' example_params)\<lparr>progress_callback := None\<rparr>) example_world) = Returned"
    by (simp add: run_defs example_defs)
  from fetch_processes_every_item [OF ran] ran show ?thesis
    by (simp add: get_repositories_def)
qed

subsection \<open>The directory check\<close>

lemma ensure_directory_exists:
  "os_path_exists (fs w) t \<Longrightarrow> ensure_directory e t w = (None, w)"
  by (simp add: ensure_directory_def)

lemma ensure_directory_created:
  "\<not> os_path_exists (fs w) t \<Longrightarrow> os_makedirs e t (fs w) = (None, f') \<Longrightarrow>
     ensure_directory e t w =
       (None, w\<lparr>fs := f', events := events w @ [Makedirs t, Log Info (''Created directory '' @ t)]\<rparr>)"
  by (simp add: ensure_directory_def emit_def BBLogger_log_def)

lemma ensure_directory_failed:
  "\<not> os_path_exists (fs w) t \<Longrightarrow> os_makedirs e t (fs w) = (Some x, f') \<Longrightarrow>
     ensure_directory e t w = (Some x, w\<lparr>fs := f', events := events w @ [Makedirs t]\<rparr>)"
  by (simp add: ensure_directory_def emit_def)

lemma ensure_directory_events:
  assumes "ensure_directory e t w = (x, w3)"
  shows "now w3 = now w \<and>
         (\<exists>new. events w3 = events w @ new \<and> callbacks_of new = [] \<and> runs_of new = [])"
  using assms
  by (auto simp: ensure_directory_def emit_def BBLogger_log_def
      split: if_splits prod.splits option.splits)

text \<open>
  After the directory check, \<open>fetch\<close> is the loop over the listing, run in the world
  \<open>w3\<close> that the check leaves, followed by lines 129 and 130 when the loop returns.
\<close>

lemma fetch_from_as_loop:
  assumes "ensure_directory e (params_get (params self) ''target_directory'')
             (BBLogger_log Info (starting_message (params_get (params self) ''region'')
                (params_get (params self) ''target_directory'')) (w\<lparr>now := Suc (now w)\<rparr>)) = (None, w3)"
      and "fetch_loop e (params_get (params self) ''region'')
             (params_get (params self) ''target_directory'') repos
             (self\<lparr>total_items := int (length repos)\<rparr>)
             (BBLogger_log Info (''Found '' @ str_int (int (length repos)) @ '' repositories.'') w3)
           = (oc, s5, w5)"
  shows "fetch_from repos e self w =
           (case oc of
              Returned \<Rightarrow> (Returned, s5\<lparr>fetch_completed := True\<rparr>,
                           BBLogger_log Info ''AWS CodeCommit fetch process completed.'' w5)
            | Raised x \<Rightarrow> (Raised x, s5, w5))"
  using assms by (simp add: fetch_from_def time_time_def Let_def split: outcome.splits)

lemma reported_with_suffix:
  "callbacks_of post = [] \<Longrightarrow> reported e n self k oc new \<Longrightarrow> reported e n self k oc (new @ post)"
  by (simp add: reported_def callbacks_of_append split: option.splits)

lemma fetch_from_after_setup:
  assumes "ensure_directory e (params_get (params self) ''target_directory'')
             (BBLogger_log Info (starting_message (params_get (params self) ''region'')
                (params_get (params self) ''target_directory'')) (w\<lparr>now := Suc (now w)\<rparr>)) = (None, w3)"
  shows "\<exists>new k. events (world_of (fetch_from repos e self w)) = events w3 @ new \<and>
           makedirs_of new = [] \<and>
           processed_items (self_of (fetch_from repos e self w)) = processed_items self + int k \<and>
           reported e (Suc (now w)) (self\<lparr>total_items := int (length repos)\<rparr>) k
             (outcome_of (fetch_from repos e self w)) new"
proof -
  let ?region = "params_get (params self) ''region''"
  let ?target = "params_get (params self) ''target_directory''"
  let ?s1 = "self\<lparr>total_items := int (length repos)\<rparr>"
  let ?found = "Log Info (''Found '' @ str_int (int (length repos)) @ '' repositories.'')"
  let ?done = "Log Info ''AWS CodeCommit fetch process completed.''"
  let ?w4 = "BBLogger_log Info (''Found '' @ str_int (int (length repos)) @ '' repositories.'') w3"
  from ensure_directory_events [OF assms] have now3: "now w3 = Suc (now w)"
    by (simp add: BBLogger_log_def emit_def)
  have w4: "events ?w4 = events w3 @ [?found]" "now ?w4 = Suc (now w)"
    using now3 by (simp_all add: BBLogger_log_def emit_def)
  obtain oc s5 w5 where loop: "fetch_loop e ?region ?target repos ?s1 ?w4 = (oc, s5, w5)"
    by (cases "fetch_loop e ?region ?target repos ?s1 ?w4")
  from fetch_loop_effects [OF loop] w4 obtain new k where
    a: "events w5 = events w3 @ [?found] @ new" "makedirs_of new = []"
       "processed_items s5 = processed_items self + int k"
       "reported e (Suc (now w)) ?s1 k oc new"
    by auto
  have pre: "reported e (Suc (now w)) ?s1 k oc ([?found] @ new)"
    by (rule reported_without_calls [OF _ a(4)]) simp
  note r = fetch_from_as_loop [OF assms loop]
  show ?thesis
  proof (cases oc)
    case Returned
    have "reported e (Suc (now w)) ?s1 k oc (([?found] @ new) @ [?done])"
      by (rule reported_with_suffix [OF _ pre]) simp
    with a Returned show ?thesis
      unfolding r world_of_def self_of_def outcome_of_def
      by (intro exI [of _ "([?found] @ new) @ [?done]"] exI [of _ k])
         (simp add: BBLogger_log_def emit_def makedirs_of_append)
  next
    case (Raised x)
    with a pre show ?thesis
      unfolding r world_of_def self_of_def outcome_of_def
      by (intro exI [of _ "[?found] @ new"] exI [of _ k])
         (simp add: makedirs_of_append)
  qed
qed

lemma fetch_from_setup_failed:
  assumes "ensure_directory e (params_get (params self) ''target_directory'')
             (BBLogger_log Info (starting_message (params_get (params self) ''region'')
                (params_get (params self) ''target_directory'')) (w\<lparr>now := Suc (now w)\<rparr>)) = (Some x, w3)"
  shows "fetch_from repos e self w = (Raised x, self, w3)"
  using assms by (simp add: fetch_from_def time_time_def Let_def)

subsection \<open>The progress callback\<close>

text \<open>The four arguments of a report, written out.\<close>

lemma report_arguments:
  "report e n (self\<lparr>total_items := N\<rparr>) i =
     (name self, N, processed_items self + 1 + int i,
      (total_processing_time self + elapsed e n (Suc i))
        / real_of_int (processed_items self + 1 + int i)
        * real_of_int (N - (processed_items self + 1 + int i)))"
  by (simp add: report_def get_name_def total_to_process_def total_processed_def
      estimated_remaining_time_def)

text \<open>
  C4. With a progress callback \<open>cb\<close> registered, a run of \<open>fetch\<close> that counts \<open>k\<close>
  identifiers (\<open>_processed_items\<close> goes up by \<open>k\<close>) calls \<open>cb\<close> exactly \<open>k\<close> times, once
  after each of them, and at no other moment. The calls are the reports number 0 to
  \<open>k - 1\<close>: each has the task name, the length of the listing, a processed count that is
  one more than at the call before (the start value plus 1 at the first), and the
  estimate of the remaining seconds that the base class computes from the counters of
  that moment (\<open>report_arguments\<close> writes the four arguments out). The calls are
  calls of \<open>cb\<close>: every call before the last returned, and the exception of a last call
  that raised is the outcome of \<open>fetch\<close>. The statement holds for every run, also one
  that an exception ends early.
\<close>

theorem progress_callback_once_per_item:
  assumes "progress_callback self = Some cb"
  shows "\<exists>new k. events (world_of (fetch_from repos e self w)) = events w @ new \<and>
           processed_items (self_of (fetch_from repos e self w)) = processed_items self + int k \<and>
           callbacks_of new =
             map (report e (Suc (now w)) (self\<lparr>total_items := int (length repos)\<rparr>)) [0..<k] \<and>
           (\<forall>i. Suc i < k \<longrightarrow>
              apply_callback cb
                (report e (Suc (now w)) (self\<lparr>total_items := int (length repos)\<rparr>) i) = None) \<and>
           (\<forall>i x. Suc i = k \<and>
              apply_callback cb
                (report e (Suc (now w)) (self\<lparr>total_items := int (length repos)\<rparr>) i) = Some x
              \<longrightarrow> outcome_of (fetch_from repos e self w) = Raised x)"
proof -
  let ?T = "params_get (params self) ''target_directory''"
  let ?R = "params_get (params self) ''region''"
  let ?s1 = "self\<lparr>total_items := int (length repos)\<rparr>"
  let ?w2 = "BBLogger_log Info (starting_message ?R ?T) (w\<lparr>now := Suc (now w)\<rparr>)"
  have w2: "events ?w2 = events w @ [Log Info (starting_message ?R ?T)]"
    by (simp add: BBLogger_log_def emit_def)
  obtain x w3 where dir_step: "ensure_directory e ?T ?w2 = (x, w3)"
    by (cases "ensure_directory e ?T ?w2")
  from ensure_directory_events [OF dir_step] obtain new0 where
    n0: "events w3 = events ?w2 @ new0" "callbacks_of new0 = []"
    by blast
  show ?thesis
  proof (cases x)
    case (Some ex)
    with dir_step have r: "fetch_from repos e self w = (Raised ex, self, w3)"
      by (simp add: fetch_from_setup_failed)
    show ?thesis
      unfolding r world_of_def self_of_def using n0 w2
      by (intro exI [of _ "[Log Info (starting_message ?R ?T)] @ new0"] exI [of _ "0::nat"])
         (simp add: callbacks_of_append)
  next
    case None
    with dir_step have "ensure_directory e ?T ?w2 = (None, w3)" by simp
    from fetch_from_after_setup [OF this, of repos] obtain new k where
      a: "events (world_of (fetch_from repos e self w)) = events w3 @ new"
         "processed_items (self_of (fetch_from repos e self w)) = processed_items self + int k"
         "reported e (Suc (now w)) ?s1 k (outcome_of (fetch_from repos e self w)) new"
      by blast
    have "reported e (Suc (now w)) ?s1 k (outcome_of (fetch_from repos e self w))
            (([Log Info (starting_message ?R ?T)] @ new0) @ new)"
      using n0(2) by (intro reported_without_calls [OF _ a(3)]) (simp add: callbacks_of_append)
    moreover have "events (world_of (fetch_from repos e self w)) =
        events w @ (([Log Info (starting_message ?R ?T)] @ new0) @ new)"
      using a(1) n0(1) w2 by simp
    ultimately show ?thesis
      using a(2) assms unfolding reported_def by (simp del: upt_Suc)
  qed
qed

text \<open>
  The example run with a callback that returns: three calls, with the counts 1, 2, 3
  of 3 and the estimates 2, 1 and 0 seconds (each item takes one second there). With a
  callback that raises at the count 2, \<open>fetch\<close> raises its exception after two items.
\<close>

theorem progress_callback_once_per_item_witness:
  "callbacks_of (events (world_of (fetch_from [''Repo1'', ''Repo2'', ''Repo3''] example_env
       watched_source example_world)))
     = [(''sync'', 3, 1, 2), (''sync'', 3, 2, 1), (''sync'', 3, 3, 0)]
   \<and> outcome_of (fetch_from [''Repo1'', ''Repo2'', ''Repo3''] example_env
       stopped_source example_world) = Raised (OtherException ''stop'')
   \<and> processed_items (self_of (fetch_from [''Repo1'', ''Repo2'', ''Repo3''] example_env
       stopped_source example_world)) = 2"
proof -
  let ?repos = "[''Repo1'', ''Repo2'', ''Repo3'']"
  have el: "elapsed example_env (Suc 0) (Suc 0) = 1" "elapsed example_env (Suc 0) (Suc (Suc 0)) = 2"
      "elapsed example_env (Suc 0) (Suc (Suc (Suc 0))) = 3"
    by (simp_all add: elapsed_def example_env_def)
  note report_simps = report_def get_name_def total_to_process_def total_processed_def
    estimated_remaining_time_def el
  have upt3: "[0..<3] = [0, Suc 0, Suc (Suc 0)]" and upt2: "[0..<2] = [0, Suc 0]"
    by (simp_all add: upt_rec)
  have cb: "progress_callback watched_source = Some silent_callback"
    by (simp add: watched_source_def)
  from progress_callback_once_per_item [OF cb, of ?repos example_env example_world]
  obtain new k where
    a: "events (world_of (fetch_from ?repos example_env watched_source example_world))
          = events example_world @ new"
       "processed_items (self_of (fetch_from ?repos example_env watched_source example_world))
          = processed_items watched_source + int k"
       "callbacks_of new =
          map (report example_env (Suc (now example_world))
                 (watched_source\<lparr>total_items := int (length ?repos)\<rparr>)) [0..<k]"
    by blast
  have "processed_items (self_of (fetch_from ?repos example_env watched_source example_world)) = 3"
    by (simp add: run_defs example_defs)
  with a(2) have k: "k = 3"
    by (simp add: watched_source_def init_def)
  from a(1,3) have one: "callbacks_of (events (world_of (fetch_from ?repos example_env
      watched_source example_world))) = [(''sync'', 3, 1, 2), (''sync'', 3, 2, 1), (''sync'', 3, 3, 0)]"
    unfolding k upt3
    by (simp add: example_world_def watched_source_def init_def report_simps)
  have cb2: "progress_callback stopped_source = Some stopping_callback"
    by (simp add: stopped_source_def)
  from progress_callback_once_per_item [OF cb2, of ?repos example_env example_world]
  obtain new2 k2 where
    ev2: "events (world_of (fetch_from ?repos example_env stopped_source example_world))
          = events example_world @ new2" and
    b: "processed_items (self_of (fetch_from ?repos example_env stopped_source example_world))
          = processed_items stopped_source + int k2"
       "\<forall>i x. Suc i = k2 \<and>
          apply_callback stopping_callback
            (report example_env (Suc (now example_world))
               (stopped_source\<lparr>total_items := int (length ?repos)\<rparr>) i) = Some x
          \<longrightarrow> outcome_of (fetch_from ?repos example_env stopped_source example_world) = Raised x"
    by blast
  have two: "processed_items (self_of (fetch_from ?repos example_env stopped_source example_world)) = 2"
    by (simp add: run_defs example_defs)
  with b(1) have k2: "k2 = 2"
    by (simp add: stopped_source_def init_def)
  have "apply_callback stopping_callback
          (report example_env (Suc (now example_world))
             (stopped_source\<lparr>total_items := int (length ?repos)\<rparr>) (Suc 0))
        = Some (OtherException ''stop'')"
    by (simp add: apply_callback_def stopping_callback_def stopped_source_def init_def
        example_world_def report_simps)
  with b(2) k2 have "outcome_of (fetch_from ?repos example_env stopped_source example_world)
      = Raised (OtherException ''stop'')"
    by (simp add: numeral_2_eq_2)
  with one two show ?thesis by simp
qed

subsection \<open>An empty listing\<close>

text \<open>
  C6. When the listing is empty, \<open>fetch\<close> sets \<open>_total_items\<close> to 0, runs no clone
  command and returns with \<open>_fetch_completed = True\<close>. The listing is asked for only
  after the directory check of lines 100 to 102, so the run reaches it when the target
  directory exists or \<open>os.makedirs\<close> creates it; that is the hypothesis.
\<close>

theorem empty_listing_completes:
  assumes "os_path_exists (fs w) (params_get (params self) ''target_directory'')
           \<or> fst (os_makedirs e (params_get (params self) ''target_directory'') (fs w)) = None"
  shows "outcome_of (fetch_from [] e self w) = Returned
         \<and> total_items (self_of (fetch_from [] e self w)) = 0
         \<and> fetch_completed (self_of (fetch_from [] e self w))
         \<and> clone_invocations (world_of (fetch_from [] e self w)) = clone_invocations w"
proof -
  let ?T = "params_get (params self) ''target_directory''"
  let ?R = "params_get (params self) ''region''"
  let ?w2 = "BBLogger_log Info (starting_message ?R ?T) (w\<lparr>now := Suc (now w)\<rparr>)"
  have fs2: "fs ?w2 = fs w" and ev2: "runs_of (events ?w2) = runs_of (events w)"
    by (simp_all add: BBLogger_log_def emit_def runs_of_append)
  obtain x w3 where dir_step: "ensure_directory e ?T ?w2 = (x, w3)"
    by (cases "ensure_directory e ?T ?w2")
  from assms dir_step fs2 have x: "x = None"
    by (auto simp: ensure_directory_def split: if_splits prod.splits option.splits)
  from ensure_directory_events [OF dir_step] ev2 have ev3: "runs_of (events w3) = runs_of (events w)"
    by (auto simp: runs_of_append)
  from dir_step x have "fetch_from [] e self w =
      (Returned, self\<lparr>total_items := 0, fetch_completed := True\<rparr>,
       BBLogger_log Info ''AWS CodeCommit fetch process completed.''
         (BBLogger_log Info (''Found '' @ str_int 0 @ '' repositories.'') w3))"
    by (simp add: fetch_from_def time_time_def Let_def)
  with ev3 show ?thesis
    by (simp add: outcome_of_def self_of_def world_of_def clone_invocations_def
        BBLogger_log_def emit_def runs_of_append)
qed

text \<open>An empty listing in the example world, then in a world where the target is created.\<close>

theorem empty_listing_completes_witness:
  "os_path_exists (fs example_world) (params_get (params (init ''sync'' example_params)) ''target_directory'')
   \<and> outcome_of (fetch_from [] example_env (init ''sync'' example_params) example_world) = Returned
   \<and> total_items (self_of (fetch_from [] example_env (init ''sync'' example_params) example_world)) = 0
   \<and> fetch_completed (self_of (fetch_from [] example_env (init ''sync'' example_params) example_world))
   \<and> clone_invocations (world_of (fetch_from [] example_env (init ''sync'' example_params) example_world)) = []"
proof -
  have ex: "os_path_exists (fs example_world)
              (params_get (params (init ''sync'' example_params)) ''target_directory'')"
    by (simp add: run_defs example_defs)
  have "clone_invocations example_world = []"
    by (simp add: clone_invocations_def example_world_def)
  with empty_listing_completes [OF disjI1 [OF ex], of example_env] ex show ?thesis
    by simp
qed

subsection \<open>Repeated calls\<close>

lemma fetch_from_returned_time:
  assumes "fetch_from repos e self w = (Returned, self', w')"
  shows "total_processing_time self' = total_processing_time self + elapsed e (Suc (now w)) (length repos)
         \<and> now w' = now w + (2 * length repos + 1)"
proof -
  let ?T = "params_get (params self) ''target_directory''"
  let ?R = "params_get (params self) ''region''"
  let ?s1 = "self\<lparr>total_items := int (length repos)\<rparr>"
  let ?w2 = "BBLogger_log Info (starting_message ?R ?T) (w\<lparr>now := Suc (now w)\<rparr>)"
  obtain x w3 where dir_step: "ensure_directory e ?T ?w2 = (x, w3)"
    by (cases "ensure_directory e ?T ?w2")
  have x: "x = None"
  proof (cases x)
    case (Some ex)
    with dir_step assms show ?thesis by (simp add: fetch_from_setup_failed)
  qed simp
  from ensure_directory_events [OF dir_step] have now3: "now w3 = Suc (now w)"
    by (simp add: BBLogger_log_def emit_def)
  let ?w4 = "BBLogger_log Info (''Found '' @ str_int (int (length repos)) @ '' repositories.'') w3"
  have now4: "now ?w4 = Suc (now w)"
    using now3 by (simp add: BBLogger_log_def emit_def)
  obtain oc s5 w5 where loop: "fetch_loop e ?R ?T repos ?s1 ?w4 = (oc, s5, w5)"
    by (cases "fetch_loop e ?R ?T repos ?s1 ?w4")
  from dir_step x have "ensure_directory e ?T ?w2 = (None, w3)" by simp
  from fetch_from_as_loop [OF this loop] assms
  have r: "oc = Returned" "self' = s5\<lparr>fetch_completed := True\<rparr>"
      "w' = BBLogger_log Info ''AWS CodeCommit fetch process completed.'' w5"
    by (simp_all split: outcome.splits)
  from fetch_loop_effects [OF loop] r(1) now4 obtain k where
    "k = length repos" "now w5 = Suc (now w) + 2 * k"
    "total_processing_time s5 = total_processing_time self + elapsed e (Suc (now w)) k"
    by auto
  with r show ?thesis
    by (simp add: BBLogger_log_def emit_def)
qed

lemma elapsed_calls_shift:
  "elapsed_calls e n N (Suc k) = elapsed e (Suc n) N + elapsed_calls e (n + (2 * N + 1)) N k"
proof -
  have "elapsed_calls e n N (Suc k)
          = (\<Sum>c\<leftarrow>0 # map Suc [0..<k]. elapsed e (n + c * (2 * N + 1) + 1) N)"
    unfolding elapsed_calls_def upt_0_Suc ..
  also have "\<dots> = elapsed e (Suc n) N
          + (\<Sum>c\<leftarrow>[0..<k]. elapsed e (n + (2 * N + 1) + c * (2 * N + 1) + 1) N)"
    by (simp add: o_def algebra_simps)
  finally show ?thesis by (simp add: elapsed_calls_def)
qed

lemma fetch_times_counts:
  "fetch_times k repos e self w = (Returned, self', w') \<Longrightarrow>
     processed_items self' = processed_items self + int k * int (length repos) \<and>
     total_items self' = (if k = 0 then total_items self else int (length repos)) \<and>
     total_processing_time self'
       = total_processing_time self + elapsed_calls e (now w) (length repos) k"
proof (induction k arbitrary: self w)
  case 0
  then show ?case by (simp add: elapsed_calls_def)
next
  case (Suc k)
  from Suc.prems obtain s1 w1 where
    one: "fetch_from repos e self w = (Returned, s1, w1)" and
    rest: "fetch_times k repos e s1 w1 = (Returned, self', w')"
    by (auto split: prod.splits outcome.splits)
  from fetch_from_returned_time [OF one] have
    t1: "total_processing_time s1 = total_processing_time self + elapsed e (Suc (now w)) (length repos)"
    and n1: "now w1 = now w + (2 * length repos + 1)"
    by simp_all
  from Suc.IH [OF rest] n1 have
    "processed_items self' = processed_items s1 + int k * int (length repos)"
    "total_items self' = (if k = 0 then total_items s1 else int (length repos))"
    "total_processing_time self'
       = total_processing_time s1 + elapsed_calls e (now w + (2 * length repos + 1)) (length repos) k"
    by simp_all
  with fetch_from_returned [OF one] t1 show ?case
    by (simp add: algebra_simps elapsed_calls_shift [of e "now w" "length repos" k])
qed

text \<open>
  C9. \<open>fetch\<close> resets neither \<open>_processed_items\<close> nor \<open>_total_processing_time\<close> on
  entry and overwrites \<open>_total_items\<close>: after \<open>k\<close> calls on the same object that all
  return, each over a listing of \<open>N\<close> identifiers, \<open>_processed_items\<close> is its starting
  value plus \<open>k * N\<close> (so \<open>k * N\<close> for an object from the constructor, where it starts
  at 0), \<open>_total_items\<close> is \<open>N\<close> as soon as one call was made, and
  \<open>_total_processing_time\<close> is its starting value plus the time of every item of
  every call.
\<close>

theorem repeated_fetch_accumulates:
  assumes "outcome_of (fetch_times k repos e self w) = Returned"
  shows "processed_items (self_of (fetch_times k repos e self w))
           = processed_items self + int k * int (length repos)
         \<and> total_items (self_of (fetch_times k repos e self w))
           = (if k = 0 then total_items self else int (length repos))
         \<and> total_processing_time (self_of (fetch_times k repos e self w))
           = total_processing_time self + elapsed_calls e (now w) (length repos) k"
proof -
  let ?r = "fetch_times k repos e self w"
  have "?r = (Returned, self_of ?r, world_of ?r)"
    using assms result_parts [of ?r] by simp
  from fetch_times_counts [OF this] show ?thesis .
qed

text \<open>
  Two calls on a fresh object over the three names of the source, each item taking
  one second: 6 processed, 3 in total, 6 seconds.
\<close>

theorem repeated_fetch_accumulates_witness:
  "outcome_of (fetch_times 2 [''Repo1'', ''Repo2'', ''Repo3''] example_env
      (init ''sync'' example_params) example_world) = Returned
   \<and> processed_items (self_of (fetch_times 2 [''Repo1'', ''Repo2'', ''Repo3''] example_env
      (init ''sync'' example_params) example_world)) = 6
   \<and> total_items (self_of (fetch_times 2 [''Repo1'', ''Repo2'', ''Repo3''] example_env
      (init ''sync'' example_params) example_world)) = 3
   \<and> total_processing_time (self_of (fetch_times 2 [''Repo1'', ''Repo2'', ''Repo3''] example_env
      (init ''sync'' example_params) example_world)) = 6"
proof -
  have two: "fetch_times 2 repos e self w = fetch_times (Suc (Suc 0)) repos e self w"
    for repos e self w
    by (simp add: numeral_2_eq_2)
  have ran: "outcome_of (fetch_times 2 [''Repo1'', ''Repo2'', ''Repo3''] example_env
      (init ''sync'' example_params) example_world) = Returned"
    by (simp add: two run_defs example_defs)
  have secs: "elapsed_calls example_env (now example_world)
                (length [''Repo1'', ''Repo2'', ''Repo3'']) 2 = 6"
    by (simp add: elapsed_calls_def elapsed_def example_env_def example_world_def upt_rec)
  from repeated_fetch_accumulates [OF ran] ran secs show ?thesis
    by (simp add: init_def)
qed

subsection \<open>The target directory\<close>

lemma fetch_from_completed:
  assumes "ensure_directory e (params_get (params self) ''target_directory'')
             (BBLogger_log Info (starting_message (params_get (params self) ''region'')
                (params_get (params self) ''target_directory'')) (w\<lparr>now := Suc (now w)\<rparr>)) = (None, w3)"
  shows "fetch_from repos e self w =
           completed (fetch_loop e (params_get (params self) ''region'')
             (params_get (params self) ''target_directory'') repos
             (self\<lparr>total_items := int (length repos)\<rparr>)
             (BBLogger_log Info (''Found '' @ str_int (int (length repos)) @ '' repositories.'') w3))"
proof -
  obtain oc s5 w5 where loop: "fetch_loop e (params_get (params self) ''region'')
             (params_get (params self) ''target_directory'') repos
             (self\<lparr>total_items := int (length repos)\<rparr>)
             (BBLogger_log Info (''Found '' @ str_int (int (length repos)) @ '' repositories.'') w3)
           = (oc, s5, w5)"
    by (metis prod_cases3)
  from fetch_from_as_loop [OF assms loop] show ?thesis
    unfolding loop by (simp add: completed_def split: outcome.splits)
qed

text \<open>
  C7. After its first log line and before anything else, \<open>fetch\<close> looks at the target
  directory. If it exists, no directory is created in the whole run, and the loop over
  the listing runs in the file system as it was. If it does not exist,
  \<open>os.makedirs\<close> is called once on it, before any clone. When that call returns, the
  creation is logged next and the loop runs in the file system that \<open>os.makedirs\<close>
  left: with the contract of \<open>os.makedirs\<close>, the target and all its parent path
  segments are directories there. When the call raises, \<open>fetch\<close> raises the same
  exception at once, with the object unchanged and nothing cloned.
\<close>

theorem target_directory_is_prepared:
  assumes "T = params_get (params self) ''target_directory''"
      and "R = params_get (params self) ''region''"
      and "found = Log Info (''Found '' @ str_int (int (length repos)) @ '' repositories.'')"
      and "r = fetch_from repos e self w"
  shows "\<exists>new. events (world_of r) = events w @ [Log Info (starting_message R T)] @ new \<and>
           (os_path_exists (fs w) T \<longrightarrow>
              makedirs_of new = [] \<and>
              r = completed (fetch_loop e R T repos (self\<lparr>total_items := int (length repos)\<rparr>)
                    (starting_world w (fs w) [Log Info (starting_message R T), found]))) \<and>
           (\<not> os_path_exists (fs w) T \<longrightarrow>
              (case os_makedirs e T (fs w) of
                 (None, f') \<Rightarrow>
                   (\<exists>rest. new = [Makedirs T, Log Info (''Created directory '' @ T)] @ rest
                      \<and> makedirs_of rest = []) \<and>
                   r = completed (fetch_loop e R T repos (self\<lparr>total_items := int (length repos)\<rparr>)
                         (starting_world w f'
                            [Log Info (starting_message R T), Makedirs T,
                             Log Info (''Created directory '' @ T), found])) \<and>
                   (creates_parents (os_makedirs e) \<longrightarrow>
                      is_directory f' T \<and> list_all (is_directory f') (parent_segments T))
               | (Some x, f') \<Rightarrow>
                   new = [Makedirs T] \<and> outcome_of r = Raised x \<and> self_of r = self
                   \<and> fs (world_of r) = f'))"
proof -
  let ?start = "Log Info (starting_message R T)"
  let ?w2 = "BBLogger_log Info (starting_message R T) (w\<lparr>now := Suc (now w)\<rparr>)"
  let ?s1 = "self\<lparr>total_items := int (length repos)\<rparr>"
  have w2: "events ?w2 = events w @ [?start]" "fs ?w2 = fs w"
    by (simp_all add: BBLogger_log_def emit_def)
  show ?thesis
  proof (cases "os_path_exists (fs w) T")
    case True
    then have dir: "ensure_directory e T ?w2 = (None, ?w2)"
      using w2 by (simp add: ensure_directory_exists)
    have start: "BBLogger_log Info (''Found '' @ str_int (int (length repos)) @ '' repositories.'') ?w2
        = starting_world w (fs w) [?start, found]"
      by (cases w) (simp add: assms(3) starting_world_def BBLogger_log_def emit_def)
    from fetch_from_completed [OF dir [unfolded assms(1,2)], of repos]
    have loop: "r = completed (fetch_loop e R T repos ?s1 (starting_world w (fs w) [?start, found]))"
      using assms start by simp
    from fetch_from_after_setup [OF dir [unfolded assms(1,2)], of repos] obtain new where
      "events (world_of r) = events ?w2 @ new" "makedirs_of new = []"
      using assms by blast
    with True w2 loop show ?thesis by simp
  next
    case False
    obtain x f' where mk: "os_makedirs e T (fs w) = (x, f')"
      by (cases "os_makedirs e T (fs w)")
    show ?thesis
    proof (cases x)
      case None
      let ?made = "[Makedirs T, Log Info (''Created directory '' @ T)]"
      let ?w3 = "?w2\<lparr>fs := f', events := events ?w2 @ ?made\<rparr>"
      from False mk None w2 have dir: "ensure_directory e T ?w2 = (None, ?w3)"
        by (simp add: ensure_directory_created)
      have start: "BBLogger_log Info (''Found '' @ str_int (int (length repos)) @ '' repositories.'') ?w3
          = starting_world w f' [?start, Makedirs T, Log Info (''Created directory '' @ T), found]"
        by (cases w) (simp add: assms(3) starting_world_def BBLogger_log_def emit_def)
      from fetch_from_completed [OF dir [unfolded assms(1,2)], of repos]
      have loop: "r = completed (fetch_loop e R T repos ?s1
          (starting_world w f' [?start, Makedirs T, Log Info (''Created directory '' @ T), found]))"
        using assms start by simp
      from fetch_from_after_setup [OF dir [unfolded assms(1,2)], of repos] obtain rest where
        ev: "events (world_of r) = events ?w3 @ rest" "makedirs_of rest = []"
        using assms by blast
      have parents: "creates_parents (os_makedirs e) \<longrightarrow>
          is_directory f' T \<and> list_all (is_directory f') (parent_segments T)"
        using mk None by (auto simp: creates_parents_def)
      from ev w2 have "events (world_of r) = events w @ [?start] @ (?made @ rest)"
        by simp
      with False mk None ev(2) loop parents show ?thesis
        by (intro exI [of _ "?made @ rest"]) simp
    next
      case (Some ex)
      let ?w3 = "?w2\<lparr>fs := f', events := events ?w2 @ [Makedirs T]\<rparr>"
      from False mk Some w2 have "ensure_directory e T ?w2 = (Some ex, ?w3)"
        by (simp add: ensure_directory_failed)
      from fetch_from_setup_failed [OF this [unfolded assms(1,2)], of repos]
      have "r = (Raised ex, self, ?w3)"
        using assms by simp
      with False mk Some w2 show ?thesis
        by (simp add: outcome_of_def self_of_def world_of_def)
    qed
  qed
qed


text \<open>The example \<open>os.makedirs\<close> keeps the contract.\<close>

lemma fold_mkdir_missing:
  "fold mkdir_missing qs g x = (if g x = None \<and> x \<in> set qs then Some (Dir []) else g x)"
  by (induction qs arbitrary: g) (auto simp: mkdir_missing_def)

lemma makedirs_posix_creates_parents: "creates_parents makedirs_posix"
proof -
  have "is_directory f' p \<and> list_all (is_directory f') (parent_segments p)"
    if "makedirs_posix p f = (None, f')" for p f f'
  proof -
    from that have f': "f' = fold mkdir_missing (parent_segments p @ [p]) f"
      and leaf: "f p = None"
      and files: "\<forall>q\<in>set (parent_segments p). f q \<noteq> Some File"
      by (auto simp: makedirs_posix_def list_ex_iff split: if_splits)
    have v: "f' x = (if f x = None \<and> x \<in> set (parent_segments p @ [p]) then Some (Dir []) else f x)"
      for x
      unfolding f' by (rule fold_mkdir_missing)
    have "is_directory f' p"
      using leaf by (simp add: v is_directory_def)
    moreover have "is_directory f' q" if "q \<in> set (parent_segments p)" for q
    proof (cases "f q")
      case None
      with that show ?thesis by (simp add: v is_directory_def)
    next
      case (Some nd)
      with that files have "nd \<noteq> File" by auto
      with Some show ?thesis
        by (cases nd) (simp_all add: v is_directory_def)
    qed
    ultimately show ?thesis by (simp add: list_all_iff)
  qed
  then show ?thesis by (simp add: creates_parents_def)
qed

lemma parent_segments_example: "parent_segments ''data/aws/repos'' = [''data'', ''data/aws'']"
  by code_simp

text \<open>
  The cases on examples: the target exists; the target \<open>data/aws/repos\<close> is missing
  with both its parents and all three are directories afterwards; the target is
  missing and \<open>os.makedirs\<close> is refused.
\<close>

theorem target_directory_is_prepared_witness:
  "makedirs_of (events (world_of (fetch_from [''Repo1''] example_env
       (init ''sync'' example_params) example_world))) = []
   \<and> take 3 (events (world_of (fetch_from [] posix_env (init ''sync'' nested_params) empty_world)))
       = [Log Info (starting_message ''us-east-1'' ''data/aws/repos''), Makedirs ''data/aws/repos'',
          Log Info ''Created directory data/aws/repos'']
   \<and> list_all (is_directory (fs (world_of (fetch_from [] posix_env (init ''sync'' nested_params)
        empty_world)))) [''data'', ''data/aws'', ''data/aws/repos'']
   \<and> events (world_of (fetch_from [''Repo1''] denied_env
       (init ''sync'' example_params) empty_world))
       = [Log Info (starting_message ''us-east-1'' ''repos''), Makedirs ''repos'']
   \<and> outcome_of (fetch_from [''Repo1''] denied_env
       (init ''sync'' example_params) empty_world) = Raised PermissionError"
proof -
  let ?S = "init ''sync'' example_params"
  let ?N = "init ''sync'' nested_params"
  have T: "''repos'' = params_get (params ?S) ''target_directory''"
    and R: "''us-east-1'' = params_get (params ?S) ''region''"
    and TN: "''data/aws/repos'' = params_get (params ?N) ''target_directory''"
    and RN: "''us-east-1'' = params_get (params ?N) ''region''"
    by (simp_all add: params_get_def init_def example_params_def nested_params_def)
  have there: "os_path_exists (fs example_world) ''repos''"
    and missing: "\<not> os_path_exists (fs empty_world) ''repos''"
    and missingN: "\<not> os_path_exists (fs empty_world) ''data/aws/repos''"
    and ev: "events example_world = []" "events empty_world = []"
    by (simp_all add: os_path_exists_def example_world_def example_fs_def empty_world_def)
  have created: "os_makedirs posix_env ''data/aws/repos'' (fs empty_world)
       = (None, fold mkdir_missing [''data'', ''data/aws'', ''data/aws/repos''] Map.empty)"
    and denied: "os_makedirs denied_env ''repos'' (fs empty_world)
                   = (Some PermissionError, fs empty_world)"
    and contract: "creates_parents (os_makedirs posix_env)"
    by (simp_all add: posix_env_def denied_env_def makedirs_posix_def makedirs_denied_def
        empty_world_def parent_segments_example makedirs_posix_creates_parents)
  from target_directory_is_prepared [OF T R refl refl, of "[''Repo1'']" example_env example_world]
    there ev
  have one: "makedirs_of (events (world_of (fetch_from [''Repo1''] example_env ?S example_world))) = []"
    by (auto simp: makedirs_of_append)
  from target_directory_is_prepared [OF TN RN refl refl, of "[]" posix_env empty_world]
    missingN ev created contract
  have two: "take 3 (events (world_of (fetch_from [] posix_env ?N empty_world)))
       = [Log Info (starting_message ''us-east-1'' ''data/aws/repos''), Makedirs ''data/aws/repos'',
          Log Info ''Created directory data/aws/repos'']
     \<and> list_all (is_directory (fs (world_of (fetch_from [] posix_env ?N empty_world))))
          [''data'', ''data/aws'', ''data/aws/repos'']"
    by (auto simp: parent_segments_example completed_def starting_world_def world_of_def
        BBLogger_log_def emit_def)
  from target_directory_is_prepared [OF T R refl refl, of "[''Repo1'']" denied_env empty_world]
    missing ev denied
  have three: "events (world_of (fetch_from [''Repo1''] denied_env ?S empty_world))
       = [Log Info (starting_message ''us-east-1'' ''repos''), Makedirs ''repos'']
     \<and> outcome_of (fetch_from [''Repo1''] denied_env ?S empty_world) = Raised PermissionError"
    by auto
  from one two three show ?thesis by simp
qed

subsection \<open>The credentials\<close>

lemma account_step_params:
  "account_step e t0 (self\<lparr>params := p\<rparr>) w =
     (case account_step e t0 self w of (oc, s, w') \<Rightarrow> (oc, s\<lparr>params := p\<rparr>, w'))"
  by (simp add: account_step_def time_time_def Let_def get_name_def total_to_process_def
      total_processed_def estimated_remaining_time_def split: option.splits)

lemma process_repo_params:
  "process_repo e region target (self\<lparr>params := p\<rparr>) w repo =
     (case process_repo e region target self w repo of (oc, s, w') \<Rightarrow> (oc, s\<lparr>params := p\<rparr>, w'))"
  by (simp add: process_repo_def account_step_params time_time_def Let_def
      split: sum.splits bool.splits prod.splits option.splits)

lemma fetch_loop_params:
  "fetch_loop e region target repos (self\<lparr>params := p\<rparr>) w =
     (case fetch_loop e region target repos self w of (oc, s, w') \<Rightarrow> (oc, s\<lparr>params := p\<rparr>, w'))"
proof (induction repos arbitrary: self w)
  case Nil
  show ?case by simp
next
  case (Cons repo repos)
  show ?case
    by (simp add: process_repo_params Cons.IH split: prod.splits outcome.splits)
qed

lemma fetch_from_params:
  assumes "params_get p1 ''region'' = params_get p2 ''region''"
      and "params_get p1 ''target_directory'' = params_get p2 ''target_directory''"
  shows "fetch_from repos e (self\<lparr>params := p2\<rparr>) w =
     (case fetch_from repos e (self\<lparr>params := p1\<rparr>) w of (oc, s, w') \<Rightarrow> (oc, s\<lparr>params := p2\<rparr>, w'))"
proof -
  have upd: "self\<lparr>params := q, total_items := n\<rparr> = (self\<lparr>total_items := n\<rparr>)\<lparr>params := q\<rparr>" for q n
    by simp
  show ?thesis
    using assms
    by (simp add: fetch_from_def time_time_def Let_def upd fetch_loop_params
        del: datasource.update_convs
        split: prod.splits option.splits outcome.splits)
qed


text \<open>
  C8. \<open>fetch\<close> reads \<open>access_key\<close> and \<open>secret_key\<close> and uses neither: two runs whose
  parameters agree on every other key have the same listing, the same outcome and
  leave the same world (the same log lines, clone commands with their URLs, skips and
  file system); the objects they leave differ in the stored parameters only.
\<close>

theorem credentials_do_not_matter:
  assumes "\<forall>k. k \<noteq> ''access_key'' \<and> k \<noteq> ''secret_key'' \<longrightarrow> p1 k = p2 k"
  shows "get_repositories (self\<lparr>params := p2\<rparr>) = get_repositories (self\<lparr>params := p1\<rparr>)
         \<and> outcome_of (fetch e (self\<lparr>params := p2\<rparr>) w) = outcome_of (fetch e (self\<lparr>params := p1\<rparr>) w)
         \<and> world_of (fetch e (self\<lparr>params := p2\<rparr>) w) = world_of (fetch e (self\<lparr>params := p1\<rparr>) w)
         \<and> self_of (fetch e (self\<lparr>params := p2\<rparr>) w)
             = (self_of (fetch e (self\<lparr>params := p1\<rparr>) w))\<lparr>params := p2\<rparr>"
proof -
  from assms have "p1 ''region'' = p2 ''region''" "p1 ''target_directory'' = p2 ''target_directory''"
    by simp_all
  then have same: "params_get p1 ''region'' = params_get p2 ''region''"
      "params_get p1 ''target_directory'' = params_get p2 ''target_directory''"
    by (simp_all add: params_get_def)
  show ?thesis
    by (simp add: fetch_def get_repositories_def fetch_from_params [OF same]
        outcome_of_def self_of_def world_of_def split: prod.splits)
qed

text \<open>The example run with another access key and no secret key.\<close>

theorem credentials_do_not_matter_witness:
  "example_params ''access_key'' \<noteq> other_keys_params ''access_key''
   \<and> example_params ''secret_key'' \<noteq> other_keys_params ''secret_key''
   \<and> world_of (fetch example_env ((init ''sync'' Map.empty)\<lparr>params := other_keys_params\<rparr>) example_world)
     = world_of (fetch example_env ((init ''sync'' Map.empty)\<lparr>params := example_params\<rparr>) example_world)
   \<and> outcome_of (fetch example_env ((init ''sync'' Map.empty)\<lparr>params := other_keys_params\<rparr>) example_world)
     = outcome_of (fetch example_env ((init ''sync'' Map.empty)\<lparr>params := example_params\<rparr>) example_world)"
proof -
  have agree: "\<forall>k. k \<noteq> ''access_key'' \<and> k \<noteq> ''secret_key'' \<longrightarrow> example_params k = other_keys_params k"
    by (simp add: example_params_def other_keys_params_def)
  have differ: "example_params ''access_key'' \<noteq> other_keys_params ''access_key''"
      "example_params ''secret_key'' \<noteq> other_keys_params ''secret_key''"
    by (simp_all add: example_params_def other_keys_params_def)
  from credentials_do_not_matter [OF agree, of "init ''sync'' Map.empty" example_env example_world]
    differ show ?thesis by simp
qed

subsection \<open>A second run\<close>

lemma account_step_keeps_files:
  "account_step e t0 self w = (oc, self', w') \<Longrightarrow>
     fs w' = fs w \<and> runs_of (events w') = runs_of (events w)"
  by (drule account_step_effects) (auto simp: runs_of_append)

lemma already_cloned_nonempty:
  "nonempty_dir f p \<Longrightarrow> already_cloned f p = Inr True"
  by (auto simp: nonempty_dir_def already_cloned_def os_path_exists_def os_listdir_def
      split: option.splits node.splits)

lemma process_repo_skips:
  assumes "nonempty_dir (fs w) (os_path_join target repo)"
      and "process_repo e region target self w repo = (oc, self', w')"
  shows "fs w' = fs w \<and> runs_of (events w') = runs_of (events w)"
proof -
  let ?w1 = "BBLogger_log Info (''Repository '' @ repo @ '' already exists. Skipping clone.'')
               (w\<lparr>now := Suc (now w)\<rparr>)"
  from assms(1) have "already_cloned (fs (w\<lparr>now := Suc (now w)\<rparr>)) (os_path_join target repo) = Inr True"
    by (simp add: already_cloned_nonempty)
  with assms(2) have "account_step e (clock e (now w)) self ?w1 = (oc, self', w')"
    by (simp add: process_repo_def time_time_def Let_def)
  from account_step_keeps_files [OF this] show ?thesis
    by (simp add: BBLogger_log_def emit_def runs_of_append)
qed

lemma fetch_loop_skips:
  "\<forall>repo\<in>set repos. nonempty_dir (fs w) (os_path_join target repo) \<Longrightarrow>
   fetch_loop e region target repos self w = (oc, self', w') \<Longrightarrow>
     fs w' = fs w \<and> runs_of (events w') = runs_of (events w)"
proof (induction repos arbitrary: self w)
  case Nil
  then show ?case by simp
next
  case (Cons repo repos)
  obtain oc1 s1 w1 where step: "process_repo e region target self w repo = (oc1, s1, w1)"
    by (cases "process_repo e region target self w repo")
  from Cons.prems(1) have "nonempty_dir (fs w) (os_path_join target repo)" by simp
  from process_repo_skips [OF this step] have keep: "fs w1 = fs w" "runs_of (events w1) = runs_of (events w)"
    by simp_all
  show ?case
  proof (cases oc1)
    case (Raised x)
    with Cons.prems(2) step keep show ?thesis by simp
  next
    case Returned
    with Cons.prems(2) step have rest: "fetch_loop e region target repos s1 w1 = (oc, self', w')"
      by simp
    from Cons.prems(1) keep have "\<forall>repo\<in>set repos. nonempty_dir (fs w1) (os_path_join target repo)"
      by simp
    from Cons.IH [OF this rest] keep show ?thesis by simp
  qed
qed

lemma fetch_from_skips:
  assumes "os_path_exists (fs w) (params_get (params self) ''target_directory'')"
      and "\<forall>repo\<in>set repos. nonempty_dir (fs w)
             (os_path_join (params_get (params self) ''target_directory'') repo)"
  shows "fs (world_of (fetch_from repos e self w)) = fs w
         \<and> clone_invocations (world_of (fetch_from repos e self w)) = clone_invocations w"
proof -
  let ?T = "params_get (params self) ''target_directory''"
  let ?R = "params_get (params self) ''region''"
  let ?w2 = "BBLogger_log Info (starting_message ?R ?T) (w\<lparr>now := Suc (now w)\<rparr>)"
  let ?s1 = "self\<lparr>total_items := int (length repos)\<rparr>"
  let ?w4 = "BBLogger_log Info (''Found '' @ str_int (total_items ?s1) @ '' repositories.'') ?w2"
  have w4: "fs ?w4 = fs w" "runs_of (events ?w4) = runs_of (events w)"
    by (simp_all add: BBLogger_log_def emit_def runs_of_append)
  from assms(1) have dir: "ensure_directory e ?T ?w2 = (None, ?w2)"
    by (simp add: ensure_directory_exists BBLogger_log_def emit_def)
  obtain oc s5 w5 where loop: "fetch_loop e ?R ?T repos ?s1 ?w4 = (oc, s5, w5)"
    by (cases "fetch_loop e ?R ?T repos ?s1 ?w4")
  from assms(2) w4 have "\<forall>repo\<in>set repos. nonempty_dir (fs ?w4) (os_path_join ?T repo)"
    by simp
  from fetch_loop_skips [OF this loop] w4 have w5: "fs w5 = fs w" "runs_of (events w5) = runs_of (events w)"
    by simp_all
  from dir loop have "world_of (fetch_from repos e self w) =
      (case oc of Returned \<Rightarrow> BBLogger_log Info ''AWS CodeCommit fetch process completed.'' w5
                | Raised x \<Rightarrow> w5)"
    by (simp add: fetch_from_def time_time_def Let_def world_of_def split: outcome.splits)
  with w5 show ?thesis
    by (simp add: clone_invocations_def BBLogger_log_def emit_def runs_of_append
        split: outcome.splits)
qed


text \<open>
  C2, as the code has it. A second call of \<open>fetch\<close> on the object and the world that
  a first call returned with runs no clone command, provided that after the first call
  the target directory exists and the destination of every identifier is a non-empty
  directory.
\<close>

theorem second_run_clones_nothing:
  assumes "outcome_of (fetch_from repos e self w) = Returned"
      and "os_path_exists (fs (world_of (fetch_from repos e self w)))
             (params_get (params self) ''target_directory'')"
      and "\<forall>repo\<in>set repos. nonempty_dir (fs (world_of (fetch_from repos e self w)))
             (os_path_join (params_get (params self) ''target_directory'') repo)"
  shows "clone_invocations (world_of (fetch_from repos e (self_of (fetch_from repos e self w))
             (world_of (fetch_from repos e self w))))
           = clone_invocations (world_of (fetch_from repos e self w))"
proof -
  let ?r = "fetch_from repos e self w"
  have "?r = (Returned, self_of ?r, world_of ?r)"
    using assms(1) result_parts [of ?r] by simp
  from fetch_from_returned [OF this] have "params (self_of ?r) = params self"
    by simp
  with assms(2,3) fetch_from_skips [of "world_of ?r" "self_of ?r" repos e] show ?thesis
    by simp
qed

text \<open>
  Two runs from an empty file system with a clone that succeeds: the first creates the
  target and clones the three repositories, the second clones nothing.
\<close>

theorem second_run_clones_nothing_witness:
  "outcome_of (fetch_from [''Repo1'', ''Repo2'', ''Repo3''] cloning_env
      (init ''sync'' example_params) empty_world) = Returned
   \<and> length (clone_invocations (world_of (fetch_from [''Repo1'', ''Repo2'', ''Repo3''] cloning_env
      (init ''sync'' example_params) empty_world))) = 3
   \<and> clone_invocations (world_of (fetch_from [''Repo1'', ''Repo2'', ''Repo3''] cloning_env
        (self_of (fetch_from [''Repo1'', ''Repo2'', ''Repo3''] cloning_env
           (init ''sync'' example_params) empty_world))
        (world_of (fetch_from [''Repo1'', ''Repo2'', ''Repo3''] cloning_env
           (init ''sync'' example_params) empty_world))))
     = clone_invocations (world_of (fetch_from [''Repo1'', ''Repo2'', ''Repo3''] cloning_env
        (init ''sync'' example_params) empty_world))"
proof -
  let ?r = "fetch_from [''Repo1'', ''Repo2'', ''Repo3''] cloning_env
              (init ''sync'' example_params) empty_world"
  have ran: "outcome_of ?r = Returned"
    by (simp add: run_defs example_defs)
  have target: "os_path_exists (fs (world_of ?r))
                  (params_get (params (init ''sync'' example_params)) ''target_directory'')"
    by (simp add: run_defs example_defs)
  have dests: "\<forall>repo\<in>set [''Repo1'', ''Repo2'', ''Repo3''].
                 nonempty_dir (fs (world_of ?r))
                   (os_path_join (params_get (params (init ''sync'' example_params))
                      ''target_directory'') repo)"
    by (simp add: run_defs example_defs)
  have three: "length (clone_invocations (world_of ?r)) = 3"
    by (simp add: run_defs example_defs)
  from second_run_clones_nothing [OF ran target dests] ran three show ?thesis
    by simp
qed

text \<open>
  C2, as the claim has it, fails: in the example world with a clone that always exits
  with a non-zero status, the first run returns with \<open>_fetch_completed = True\<close> after
  two clone commands (for \<open>Repo2\<close> and \<open>Repo3\<close>), and the second run issues the same
  two commands again.
\<close>

theorem second_run_clones_again:
  "outcome_of first_run = Returned
   \<and> fetch_completed (self_of first_run)
   \<and> length (clone_invocations (world_of first_run)) = 2
   \<and> outcome_of second_run = Returned
   \<and> length (clone_invocations (world_of second_run)) = 4"
  by (simp add: first_run_def second_run_def run_defs example_defs)

subsection \<open>A failing clone\<close>

text \<open>
  What lines 117 to 122 do with a clone that exits with a non-zero status and whose
  captured standard error decodes: the text is logged at error level and no exception
  leaves \<open>try_clone\<close>, so the loop goes on to the counters and to the next repository.
\<close>

lemma decodable_failure_is_logged:
  assumes "subprocess_run e (now w) [''git'', ''clone'', url, dest] (fs w) = (CalledProcessError err, f')"
      and "decode err = Inr s"
  shows "try_clone e repo url dest w =
           (None, w\<lparr>fs := f',
                    events := events w @
                      [Log Info (''Cloning repository '' @ repo @ '' from '' @ url @ '' ...''),
                       Run [''git'', ''clone'', url, dest],
                       Log Error (''Error cloning '' @ repo @ '': '' @ s)]\<rparr>)"
  using assms by (simp add: try_clone_def BBLogger_log_def emit_def Let_def)

text \<open>
  C3 fails on the code for a clone whose standard error is not valid UTF-8. In the
  example world the clone of \<open>Repo2\<close> exits with a non-zero status and the single byte
  \<open>0xFF\<close> on standard error: \<open>e.stderr.decode()\<close> raises \<open>UnicodeDecodeError\<close> inside
  the \<open>except\<close> block, the exception leaves the loop and \<open>fetch\<close>, nothing is logged at
  error level, and \<open>Repo3\<close> is never attempted (one clone command in the whole run).
\<close>

theorem undecodable_stderr_aborts_run:
  "decode [CHR 0xFF] = Inl UnicodeDecodeError
   \<and> outcome_of (fetch undecodable_env (init ''sync'' example_params) example_world)
       = Raised UnicodeDecodeError
   \<and> clone_invocations (world_of (fetch undecodable_env (init ''sync'' example_params) example_world))
       = [[''git'', ''clone'', ''https://git-codecommit.us-east-1.amazonaws.com/v1/repos/Repo2'',
           ''repos/Repo2'']]
   \<and> error_logs_of (events (world_of (fetch undecodable_env (init ''sync'' example_params)
        example_world))) = []
   \<and> processed_items (self_of (fetch undecodable_env (init ''sync'' example_params) example_world)) = 1
   \<and> \<not> fetch_completed (self_of (fetch undecodable_env (init ''sync'' example_params) example_world))"
  by (simp add: run_defs example_defs)

subsection \<open>The destination of one repository\<close>

text \<open>
  The two branches of line 114 that the code takes by design. A destination that is a
  non-empty directory is skipped: the skip is logged and no command is run.
\<close>

lemma nonempty_destination_is_skipped:
  assumes "nonempty_dir (fs w) (os_path_join target repo)"
  shows "process_repo e region target self w repo =
           account_step e (clock e (now w)) self
             (BBLogger_log Info (''Repository '' @ repo @ '' already exists. Skipping clone.'')
                (w\<lparr>now := Suc (now w)\<rparr>))"
  using assms
  by (simp add: process_repo_def time_time_def Let_def already_cloned_nonempty)

text \<open>
  A destination that does not exist, or is an empty directory, is cloned: the command
  is \<open>git clone\<close> with the URL made of the region and the name, into the joined path.
\<close>

lemma absent_destination_is_cloned:
  assumes "fs w (os_path_join target repo) = None \<or> fs w (os_path_join target repo) = Some (Dir [])"
      and "process_repo e region target self w repo = (oc, self', w')"
  shows "runs_of (events w') = runs_of (events w) @
           [[''git'', ''clone'',
             ''https://git-codecommit.'' @ region @ ''.amazonaws.com/v1/repos/'' @ repo,
             os_path_join target repo]]"
proof -
  let ?dest = "os_path_join target repo"
  let ?url = "''https://git-codecommit.'' @ region @ ''.amazonaws.com/v1/repos/'' @ repo"
  let ?w1 = "w\<lparr>now := Suc (now w)\<rparr>"
  from assms(1) have no: "already_cloned (fs ?w1) ?dest = Inr False"
    by (auto simp: already_cloned_def os_path_exists_def os_listdir_def)
  obtain x w2 where tc: "try_clone e repo ?url ?dest ?w1 = (x, w2)"
    by (cases "try_clone e repo ?url ?dest ?w1")
  from try_clone_effects [OF tc] have r2: "runs_of (events w2) = runs_of (events w) @ [[''git'', ''clone'', ?url, ?dest]]"
    by (auto simp: runs_of_append)
  show ?thesis
  proof (cases x)
    case (Some ex)
    with assms(2) no tc have "w' = w2"
      by (simp add: process_repo_def time_time_def Let_def)
    with r2 show ?thesis by simp
  next
    case None
    with assms(2) no tc have "account_step e (clock e (now w)) self w2 = (oc, self', w')"
      by (simp add: process_repo_def time_time_def Let_def)
    from account_step_keeps_files [OF this] r2 show ?thesis by simp
  qed
qed

text \<open>
  C5 fails on the code for a destination that exists and is not a directory. In
  \<open>file_world\<close> the path \<open>repos/Repo1\<close> is a regular file: \<open>os.path.exists\<close> is true,
  \<open>os.listdir\<close> raises \<open>NotADirectoryError\<close> outside any \<open>try\<close>, and \<open>fetch\<close> ends
  there: \<open>Repo1\<close> is neither skipped nor cloned, and \<open>Repo2\<close> and \<open>Repo3\<close> are never
  looked at.
\<close>

theorem file_at_destination_aborts_run:
  "os_path_join ''repos'' ''Repo1'' = ''repos/Repo1''
   \<and> fs file_world ''repos/Repo1'' = Some File
   \<and> outcome_of (fetch example_env (init ''sync'' example_params) file_world)
       = Raised NotADirectoryError
   \<and> clone_invocations (world_of (fetch example_env (init ''sync'' example_params) file_world)) = []
   \<and> events (world_of (fetch example_env (init ''sync'' example_params) file_world))
       = [Log Info ''Starting AWS CodeCommit fetch for region 'us-east-1' into 'repos'.'',
          Log Info ''Found 3 repositories.'']
   \<and> processed_items (self_of (fetch example_env (init ''sync'' example_params) file_world)) = 0"
  by (simp add: run_defs example_defs)

section \<open>Properties of the P2P listing function\<close>

text \<open>The cases in which the function returns what the claim says.\<close>

lemma request_exception_gives_empty_list:
  "requests_get ''https://api2.bybit.com/spot/api/otc/item/list''
       [(''userId'', []), (''tokenId'', b), (''currencyId'', f), (''side'', str_upper t),
        (''size'', ''10''), (''page'', ''1'')] = GetRaised msg \<Longrightarrow>
   get_bybit_p2p_opportunities requests_get b t f = (Inr (PList []), [HttpRequestFailed msg])"
  by (simp add: get_bybit_p2p_opportunities_def)

lemma error_code_gives_empty_list:
  "\<not> equals_zero (dict_get d ''ret_code'' PNone) \<Longrightarrow>
   get_bybit_p2p_opportunities (answers (PDict d)) b t f
     = (Inr (PList []), [ErrorFromApi (dict_get d ''ret_msg'' PNone)])"
  by (simp add: get_bybit_p2p_opportunities_def answers_def)

lemma items_list_is_returned:
  "equals_zero (dict_get d ''ret_code'' PNone) \<Longrightarrow>
   dict_get d ''result'' (PDict []) = PDict res \<Longrightarrow>
   get_bybit_p2p_opportunities (answers (PDict d)) b t f
     = (Inr (dict_get res ''items'' (PList [])), [])"
  by (simp add: get_bybit_p2p_opportunities_def answers_def)

lemma never_a_request_exception:
  "fst (get_bybit_p2p_opportunities requests_get b t f) = Inl x \<Longrightarrow> x = AttributeError"
  by (auto simp: get_bybit_p2p_opportunities_def Let_def
      split: http_reply.splits if_splits sum.splits pyval.splits)

text \<open>
  C10 fails on the code: the function does not always return a list. For the answer
  \<open>{"ret_code": 0, "result": {"items": null}}\<close> it returns \<open>None\<close>, and for
  \<open>{"ret_code": 0, "result": null}\<close> the second \<open>.get\<close> is called on \<open>None\<close> and
  raises \<open>AttributeError\<close>, which the \<open>except\<close> clause does not catch. An answer with
  a list of offers is returned as the claim says.
\<close>

theorem null_items_is_not_a_list:
  "get_bybit_p2p_opportunities (answers null_items) ''USDT'' ''sell'' ''USD'' = (Inr PNone, [])
   \<and> \<not> is_list PNone
   \<and> get_bybit_p2p_opportunities (answers null_result) ''USDT'' ''sell'' ''USD''
       = (Inl AttributeError, [])
   \<and> get_bybit_p2p_opportunities (answers two_offers) ''USDT'' ''sell'' ''USD''
       = (Inr (PList [PDict [(''nickname'', PStr ''a'')], PDict [(''nickname'', PStr ''b'')]]), [])"
  by (simp add: get_bybit_p2p_opportunities_def answers_def null_items_def null_result_def
      two_offers_def dict_get_def equals_zero_def is_list_def)

end
